theory Spec2Isabelle
  imports Main
begin

section \<open>Python strings\<close>

text \<open>
  A Python \<open>str\<close> that comes out of \<open>decode('utf-8')\<close> is modelled as the list of its code
  points, each a natural number: the body of the listing service, its lines, and the pool
  entries made from them. A \<open>str\<close> that holds code points below 256 only is modelled as a
  \<open>string\<close>, one \<open>char\<close> per code point: the request path, which \<open>http.server\<close> decodes as
  ISO-8859-1, and URLs and messages. Bytes are a \<open>string\<close> too.
\<close>

type_synonym pystr = "nat list"

definition py :: "string \<Rightarrow> pystr" where
  \<comment> \<open>a literal, as code points\<close>
  "py s = map of_char s"

definition py_isspace :: "nat \<Rightarrow> bool" where
  \<comment> \<open>the code points that \<open>str.strip()\<close> removes (those with \<open>str.isspace\<close>)\<close>
  "py_isspace n =
     ((9 \<le> n \<and> n \<le> 13) \<or> (28 \<le> n \<and> n \<le> 32) \<or> n = 133 \<or> n = 160 \<or> n = 5760 \<or>
      (8192 \<le> n \<and> n \<le> 8202) \<or> n = 8232 \<or> n = 8233 \<or> n = 8239 \<or> n = 8287 \<or> n = 12288)"

definition strip :: "pystr \<Rightarrow> pystr" where
  \<comment> \<open>\<open>s.strip()\<close>: leading and trailing whitespace removed.\<close>
  "strip s = rev (dropWhile py_isspace (rev (dropWhile py_isspace s)))"

fun split_nl :: "pystr \<Rightarrow> pystr list" where
  \<comment> \<open>\<open>s.split('\n')\<close>: one more piece than there are newlines; pieces may be empty.\<close>
  "split_nl [] = [[]]"
| "split_nl (c # cs) =
     (if c = 10 then [] # split_nl cs
      else (case split_nl cs of
              [] \<Rightarrow> [[c]]
            | l # ls \<Rightarrow> (c # l) # ls))"

fun startswith :: "'a list \<Rightarrow> 'a list \<Rightarrow> bool" where
  \<comment> \<open>\<open>s.startswith(p)\<close>\<close>
  "startswith s [] = True"
| "startswith [] (p # ps) = False"
| "startswith (c # cs) (p # ps) = (c = p \<and> startswith cs ps)"

fun py_in :: "'a list \<Rightarrow> 'a list \<Rightarrow> bool" where
  \<comment> \<open>\<open>sub in s\<close>: \<open>sub\<close> occurs in \<open>s\<close> as a contiguous piece.\<close>
  "py_in sub [] = (sub = [])"
| "py_in sub (c # cs) = (startswith (c # cs) sub \<or> py_in sub cs)"

definition py_lower_char :: "char \<Rightarrow> char" where
  \<comment> \<open>\<open>str.lower\<close> on one code point below 256: A..Z and the Latin-1 capitals but U+00D7.\<close>
  "py_lower_char c =
     (let n = (of_char c :: nat)
      in if (65 \<le> n \<and> n \<le> 90) \<or> (192 \<le> n \<and> n \<le> 222 \<and> n \<noteq> 215)
         then char_of (n + 32) else c)"

definition lower :: "string \<Rightarrow> string" where
  "lower s = map py_lower_char s"

fun decimal :: "nat \<Rightarrow> string" where
  \<comment> \<open>\<open>'%s' % n\<close> for a non-negative integer\<close>
  "decimal n =
     (if n < 10 then [char_of (48 + n)]
      else decimal (n div 10) @ [char_of (48 + n mod 10)])"

declare decimal.simps [simp del]

section \<open>Outcomes of outbound calls\<close>

text \<open>
  The exception classes that matter to \<open>forward_request\<close>, each with what it carries.
  \<open>HTTPError\<close> is a subclass of \<open>URLError\<close>; \<open>URLError\<close>, \<open>TimeoutError\<close> and
  \<open>ConnectionError\<close> are subclasses of \<open>OSError\<close> and unrelated to each other. A value is
  tagged with its most specific class among these; \<open>ConnectionError\<close> stands for its
  subclasses too (\<open>ConnectionResetError\<close>, \<open>BrokenPipeError\<close>, \<open>http.client.RemoteDisconnected\<close>),
  \<open>OtherException\<close> for every other subclass of \<open>Exception\<close>.
\<close>

datatype exn =
    HTTPError nat string
  | URLError string
  | TimeoutError string
  | ConnectionError string
  | OtherException string

definition exn_str :: "exn \<Rightarrow> string" where
  \<comment> \<open>\<open>str(e)\<close>\<close>
  "exn_str e =
     (case e of
        HTTPError code reason \<Rightarrow> ''HTTP Error '' @ decimal code @ '': '' @ reason
      | URLError reason \<Rightarrow> ''<urlopen error '' @ reason @ ''>''
      | TimeoutError msg \<Rightarrow> msg
      | ConnectionError msg \<Rightarrow> msg
      | OtherException msg \<Rightarrow> msg)"

text \<open>What a call that may raise does: it yields a value or raises.\<close>

datatype 'a outcome = Returned 'a | Raised exn

text \<open>
  The response object that \<open>urlopen\<close> or \<open>opener.open\<close> yields: \<open>response.status\<close>,
  \<open>response.getheaders()\<close>, and what \<open>response.read()\<close> does when it is called.
\<close>

record response =
  status :: nat
  headers :: "(string \<times> string) list"
  body :: "string outcome"

text \<open>
  What happened on the way to the upstream, by kind, and how \<open>urllib.request\<close> hands it to
  the program. This is the standard library's behaviour (Python 3.10 and later), not code
  of the repository:
  \<^item> an HTTP reply: \<open>HTTPErrorProcessor\<close> passes the response on only for a status in 200..299
    and raises \<open>HTTPError\<close> with the status as \<open>code\<close> and the reason phrase otherwise (a
    redirect that \<open>urllib\<close> follows is not a reply in this sense, the reply at its end is);
  \<^item> a failure while connecting or sending the request (refused, DNS failure, timeout while
    connecting): \<open>do_open\<close> catches the \<open>OSError\<close> and raises \<open>URLError\<close>;
  \<^item> a timeout while waiting for the response: \<open>getresponse()\<close> raises \<open>TimeoutError\<close>,
    which \<open>do_open\<close> lets through;
  \<^item> the connection closed or reset while waiting for the response: \<open>getresponse()\<close> raises
    \<open>RemoteDisconnected\<close> or \<open>ConnectionResetError\<close>, which \<open>do_open\<close> lets through;
  \<^item> anything else, such as a malformed status line.
\<close>

datatype upstream_reply =
    HttpReply response string
  | ConnectFailure string
  | ResponseTimeout
  | ConnectionClosed string
  | OtherFailure string

definition urllib_open :: "upstream_reply \<Rightarrow> response outcome" where
  "urllib_open u =
     (case u of
        HttpReply r reason \<Rightarrow>
          if 200 \<le> status r \<and> status r < 300 then Returned r
          else Raised (HTTPError (status r) reason)
      | ConnectFailure reason \<Rightarrow> Raised (URLError reason)
      | ResponseTimeout \<Rightarrow> Raised (TimeoutError ''timed out'')
      | ConnectionClosed msg \<Rightarrow> Raised (ConnectionError msg)
      | OtherFailure msg \<Rightarrow> Raised (OtherException msg))"

section \<open>app.py: fetching, validating, refreshing the pool\<close>

text \<open>
  \<open>fetch_proxies_from_api\<close>. The argument is what the \<open>urlopen\<close>, \<open>read\<close> and \<open>decode\<close>
  of the \<open>try\<close> body did: the decoded body, or the exception one of them raised.
  The \<open>for\<close> loop appends to \<open>proxies\<close>.
\<close>

fun parse_lines :: "pystr list \<Rightarrow> pystr list \<Rightarrow> pystr list" where
  "parse_lines [] proxies = proxies"
| "parse_lines (line0 # rest) proxies =
     (let line = strip line0
      in if line \<noteq> [] \<and> py_in (py '':'') line
         then parse_lines rest (proxies @ [py ''http://'' @ line])
         else parse_lines rest proxies)"

definition fetch_body :: "pystr outcome \<Rightarrow> exn + pystr list" where
  \<comment> \<open>the \<open>try\<close> body\<close>
  "fetch_body fetched =
     (case fetched of
        Raised e \<Rightarrow> Inl e
      | Returned raw \<Rightarrow>
          (let content = strip raw
           in Inr (parse_lines (split_nl content) [])))"

definition fetch_proxies_from_api :: "pystr outcome \<Rightarrow> pystr list" where
  \<comment> \<open>\<open>except Exception: return []\<close>\<close>
  "fetch_proxies_from_api fetched =
     (case fetch_body fetched of Inl e \<Rightarrow> [] | Inr proxies \<Rightarrow> proxies)"

text \<open>
  \<open>validate_proxy\<close>. The argument is what \<open>opener.open\<close> did for this probe.
\<close>

definition validate_body :: "response outcome \<Rightarrow> exn + bool" where
  "validate_body probed =
     (case probed of
        Raised e \<Rightarrow> Inl e
      | Returned r \<Rightarrow> if status r = 200 then Inr True else Inr False)"

definition validate_proxy :: "response outcome \<Rightarrow> bool" where
  \<comment> \<open>\<open>except Exception: return False\<close>\<close>
  "validate_proxy probed = (case validate_body probed of Inl e \<Rightarrow> False | Inr b \<Rightarrow> b)"

text \<open>
  The network as the refresh sees it: the body the listing service answers with, and the
  outcome of the probe of the \<open>tested\<close>-th candidate through the given proxy at the test URL.
\<close>

record refresh_world =
  api_answer :: "pystr outcome"
  probe_answer :: "nat \<Rightarrow> pystr \<Rightarrow> string \<Rightarrow> response outcome"

definition test_url :: string where
  "test_url = ''http://httpbin.org/ip''"

text \<open>\<open>get_working_proxies\<close>: the loop carries \<open>tested\<close> and \<open>working_proxies\<close>.\<close>

fun working_loop ::
  "refresh_world \<Rightarrow> nat \<Rightarrow> pystr list \<Rightarrow> nat \<Rightarrow> pystr list \<Rightarrow> pystr list" where
  "working_loop w max_to_test [] tested working_proxies = working_proxies"
| "working_loop w max_to_test (proxy # rest) tested working_proxies =
     (if tested \<ge> max_to_test then working_proxies
      else working_loop w max_to_test rest (tested + 1)
             (if validate_proxy (probe_answer w tested proxy test_url)
              then working_proxies @ [proxy] else working_proxies))"

definition get_working_proxies :: "refresh_world \<Rightarrow> pystr list \<Rightarrow> nat \<Rightarrow> pystr list" where
  "get_working_proxies w proxy_list max_to_test = working_loop w max_to_test proxy_list 0 []"

text \<open>\<open>update_proxy_pool\<close>: takes the global \<open>PROXY_POOL\<close> and returns its new value.\<close>

definition update_proxy_pool :: "refresh_world \<Rightarrow> pystr list \<Rightarrow> pystr list" where
  "update_proxy_pool w PROXY_POOL =
     (let new_proxies = fetch_proxies_from_api (api_answer w)
      in if new_proxies \<noteq> [] then
           (let working_proxies = get_working_proxies w new_proxies 100
            in if working_proxies \<noteq> [] then working_proxies
               else take 50 new_proxies)
         else PROXY_POOL)"

text \<open>The pools the process can hold: empty at the start, then one refresh after another.\<close>

inductive reachable_pool :: "pystr list \<Rightarrow> bool" where
  start: "reachable_pool []"
| refresh: "reachable_pool P \<Longrightarrow> reachable_pool (update_proxy_pool w P)"

section \<open>app.py: the handler\<close>

text \<open>
  The calls on the client connection that returned, in order (\<open>send_response\<close>,
  \<open>send_header\<close>, \<open>end_headers\<close>, \<open>wfile.write\<close>, \<open>send_error\<close>), and what is logged.
\<close>

datatype client_event =
    SendResponse nat
  | SendHeader string string
  | EndHeaders
  | Write string
  | SendError nat string

datatype log_event =
    NoProxiesAvailable
  | NoProxyAvailable
  | AttemptUsingProxy nat pystr string
  | ForwardedDirectly string
  | ForwardedVia string pystr
  | HTTPErrorWith pystr nat string
  | URLErrorWith pystr string string
  | TimeoutErrorWith pystr string
  | ErrorWith pystr string string

text \<open>
  The handler's observable state; \<open>iterations\<close> counts the passes through the loop body,
  \<open>slept\<close> the seconds of \<open>time.sleep\<close>, and \<open>escaped\<close> is the exception that left
  \<open>forward_request\<close>, if one did.
\<close>

record handler =
  sent :: "client_event list"
  logged :: "log_event list"
  slept :: nat
  iterations :: nat
  escaped :: "exn option"

text \<open>
  The network, the client connection and the random generator as one request sees them:
  \<^item> the draw of \<open>random.choice\<close> in the given attempt;
  \<^item> what building the request and opening the URL does in the given attempt through the
    given proxy (\<open>None\<close>: directly);
  \<^item> what the call with the given number on the client connection does in the \<open>try\<close> body
    of the given attempt: it returns (\<open>None\<close>) or raises, as a write to a client that has
    gone away does;
  \<^item> what \<open>send_error\<close> does in the \<open>except\<close> clause of the given attempt.
\<close>

record forward_world =
  draw :: "nat \<Rightarrow> nat"
  urlopen :: "nat \<Rightarrow> pystr option \<Rightarrow> string \<Rightarrow> (string \<times> string) list \<Rightarrow> response outcome"
  client :: "nat \<Rightarrow> nat \<Rightarrow> exn option"
  client_error :: "nat \<Rightarrow> exn option"

definition max_retries :: nat where
  "max_retries = 3"

definition random_choice :: "nat \<Rightarrow> 'a list \<Rightarrow> 'a" where
  \<comment> \<open>\<open>random.choice(seq)\<close> on a non-empty \<open>seq\<close>: \<open>seq[randbelow(len(seq))]\<close>\<close>
  "random_choice r seq = seq ! (r mod length seq)"

definition get_random_proxy :: "pystr list \<Rightarrow> nat \<Rightarrow> pystr option" where
  "get_random_proxy PROXY_POOL r =
     (if PROXY_POOL = [] then None else Some (random_choice r PROXY_POOL))"

definition falsy :: "pystr option \<Rightarrow> bool" where
  \<comment> \<open>\<open>not proxy\<close>: \<open>None\<close> and the empty string are false.\<close>
  "falsy proxy = (case proxy of None \<Rightarrow> True | Some s \<Rightarrow> s = [])"

text \<open>
  Calls on the client connection made one after the other, the first of them having the
  given number: the calls that returned, and the exception of the first one that raised.
\<close>

fun client_calls ::
  "(nat \<Rightarrow> exn option) \<Rightarrow> nat \<Rightarrow> client_event list \<Rightarrow> client_event list \<times> exn option" where
  "client_calls cl i [] = ([], None)"
| "client_calls cl i (ev # evs) =
     (case cl i of
        Some e \<Rightarrow> ([], Some e)
      | None \<Rightarrow> (case client_calls cl (i + 1) evs of (returned, x) \<Rightarrow> (ev # returned, x)))"

text \<open>
  The \<open>with ... as response\<close> block, the same in all three places: \<open>send_response\<close>, a
  \<open>send_header\<close> for each header, \<open>end_headers\<close>, then \<open>response.read()\<close> and
  \<open>wfile.write\<close>. It gives the client calls that returned and the exception that left the
  block, if any. Closing the response on leaving the block is taken not to raise.
\<close>

definition copy_events ::
  "(nat \<Rightarrow> exn option) \<Rightarrow> response outcome \<Rightarrow> client_event list \<times> exn option" where
  "copy_events cl opened =
     (case opened of
        Raised e \<Rightarrow> ([], Some e)
      | Returned r \<Rightarrow>
          (case client_calls cl 0
                  (SendResponse (status r)
                   # map (\<lambda>(key, val). SendHeader key val) (headers r) @ [EndHeaders]) of
             (returned, Some e) \<Rightarrow> (returned, Some e)
           | (returned, None) \<Rightarrow>
               (case body r of
                  Raised e \<Rightarrow> (returned, Some e)
                | Returned b \<Rightarrow>
                    (case client_calls cl (length (headers r) + 2) [Write b] of
                       (written, x) \<Rightarrow> (returned @ written, x)))))"

definition copy_response ::
  "(nat \<Rightarrow> exn option) \<Rightarrow> response outcome \<Rightarrow> handler \<Rightarrow> handler \<times> exn option" where
  "copy_response cl opened h =
     (case copy_events cl opened of (evs, x) \<Rightarrow> (h\<lparr>sent := sent h @ evs\<rparr>, x))"

definition add_log :: "log_event \<Rightarrow> handler \<Rightarrow> handler" where
  "add_log ev h = h\<lparr>logged := logged h @ [ev]\<rparr>"

text \<open>
  The \<open>try\<close> body of one attempt. The local \<open>proxy\<close> is \<open>None\<close> while it is unbound. The
  result is the local, the handler, and \<open>None\<close> for \<open>return\<close> or the exception raised.
\<close>

definition try_body ::
  "forward_world \<Rightarrow> pystr list \<Rightarrow> string \<Rightarrow> (string \<times> string) list \<Rightarrow> nat \<Rightarrow>
   pystr option option \<Rightarrow> handler \<Rightarrow> pystr option option \<times> handler \<times> exn option" where
  "try_body w PROXY_POOL url hdrs attempt proxy_local h =
     (if PROXY_POOL = [] then
        (case copy_response (client w attempt) (urlopen w attempt None url hdrs)
                (add_log NoProxiesAvailable h) of
           (h1, Some e) \<Rightarrow> (proxy_local, h1, Some e)
         | (h1, None) \<Rightarrow> (proxy_local, add_log (ForwardedDirectly url) h1, None))
      else
        (let proxy = get_random_proxy PROXY_POOL (draw w attempt)
         in if falsy proxy then
              (case copy_response (client w attempt) (urlopen w attempt None url hdrs)
                      (add_log NoProxyAvailable h) of
                 (h1, Some e) \<Rightarrow> (Some proxy, h1, Some e)
               | (h1, None) \<Rightarrow> (Some proxy, add_log (ForwardedDirectly url) h1, None))
            else
              (case copy_response (client w attempt) (urlopen w attempt proxy url hdrs)
                      (add_log (AttemptUsingProxy (attempt + 1) (the proxy) url) h) of
                 (h1, Some e) \<Rightarrow> (Some proxy, h1, Some e)
               | (h1, None) \<Rightarrow> (Some proxy, add_log (ForwardedVia url (the proxy)) h1, None))))"

definition proxy_label :: "pystr option option \<Rightarrow> pystr" where
  \<comment> \<open>\<open>proxy if 'proxy' in locals() else 'direct'\<close>, as the f-string prints it\<close>
  "proxy_label proxy_local =
     (case proxy_local of
        None \<Rightarrow> py ''direct''
      | Some None \<Rightarrow> py ''None''
      | Some (Some p) \<Rightarrow> p)"

definition send_error :: "exn option \<Rightarrow> nat \<Rightarrow> string \<Rightarrow> handler \<Rightarrow> handler \<times> exn option" where
  \<comment> \<open>\<open>self.send_error(code, message)\<close>, given what the call does\<close>
  "send_error does code message h =
     (case does of
        Some e \<Rightarrow> (h, Some e)
      | None \<Rightarrow> (h\<lparr>sent := sent h @ [SendError code message]\<rparr>, None))"

text \<open>
  The four \<open>except\<close> clauses, in the source's order: the first whose class the exception
  is an instance of runs. The result is the handler and the exception that \<open>send_error\<close>
  raised inside the clause, if any.
\<close>

definition handle_exn ::
  "forward_world \<Rightarrow> exn \<Rightarrow> nat \<Rightarrow> pystr option option \<Rightarrow> string \<Rightarrow> handler \<Rightarrow>
   handler \<times> exn option" where
  "handle_exn w e attempt proxy_local url h =
     (case e of
        HTTPError code reason \<Rightarrow>
          (let h1 = add_log (HTTPErrorWith (proxy_label proxy_local) code url) h
           in if attempt = max_retries - 1
              then send_error (client_error w attempt) code (exn_str e) h1 else (h1, None))
      | URLError reason \<Rightarrow>
          (let h1 = add_log (URLErrorWith (proxy_label proxy_local) (exn_str e) url) h
           in if attempt = max_retries - 1
              then send_error (client_error w attempt) 504 (exn_str e) h1 else (h1, None))
      | TimeoutError msg \<Rightarrow>
          (let h1 = add_log (TimeoutErrorWith (proxy_label proxy_local) url) h
           in if attempt = max_retries - 1
              then send_error (client_error w attempt) 504 ''Request timed out'' h1
              else (h1, None))
      | ConnectionError msg \<Rightarrow>
          (let h1 = add_log (ErrorWith (proxy_label proxy_local) (exn_str e) url) h
           in if attempt = max_retries - 1
              then send_error (client_error w attempt) 500 (exn_str e) h1 else (h1, None))
      | OtherException msg \<Rightarrow>
          (let h1 = add_log (ErrorWith (proxy_label proxy_local) (exn_str e) url) h
           in if attempt = max_retries - 1
              then send_error (client_error w attempt) 500 (exn_str e) h1 else (h1, None)))"

text \<open>
  \<open>for attempt in range(max_retries)\<close>, over the attempts still to make. An exception
  raised inside an \<open>except\<close> clause leaves the function.
\<close>

fun retry_loop ::
  "forward_world \<Rightarrow> pystr list \<Rightarrow> string \<Rightarrow> (string \<times> string) list \<Rightarrow> nat list \<Rightarrow>
   pystr option option \<Rightarrow> handler \<Rightarrow> handler" where
  "retry_loop w PROXY_POOL url hdrs [] proxy_local h = h"
| "retry_loop w PROXY_POOL url hdrs (attempt # rest) proxy_local h =
     (case try_body w PROXY_POOL url hdrs attempt proxy_local
             (h\<lparr>iterations := iterations h + 1\<rparr>) of
        (proxy_local', h1, None) \<Rightarrow> h1
      | (proxy_local', h1, Some e) \<Rightarrow>
          (case handle_exn w e attempt proxy_local' url h1 of
             (h2, Some e') \<Rightarrow> h2\<lparr>escaped := Some e'\<rparr>
           | (h2, None) \<Rightarrow>
               retry_loop w PROXY_POOL url hdrs rest proxy_local' (h2\<lparr>slept := slept h2 + 1\<rparr>)))"

definition handler0 :: handler where
  "handler0 = \<lparr>sent = [], logged = [], slept = 0, iterations = 0, escaped = None\<rparr>"

definition forward_request ::
  "forward_world \<Rightarrow> pystr list \<Rightarrow> string \<Rightarrow> (string \<times> string) list \<Rightarrow> handler" where
  "forward_request w PROXY_POOL url hdrs =
     retry_loop w PROXY_POOL url hdrs [0..<max_retries] None handler0"

text \<open>
  \<open>validate_url\<close>. The second argument is what \<open>urllib.parse.urlparse(url).scheme\<close> gave,
  or the exception \<open>urlparse\<close> raised.
\<close>

definition validate_url :: "string \<Rightarrow> string outcome \<Rightarrow> string option" where
  "validate_url url parsed_scheme =
     (case parsed_scheme of
        Raised e \<Rightarrow> None
      | Returned scheme \<Rightarrow> Some (if scheme = [] then ''http://'' @ url else url))"

section \<open>working_https_proxy.py\<close>

text \<open>\<open>fetch_proxies\<close>: as above, over the first ten pieces only.\<close>

definition fetch_proxies_body :: "pystr outcome \<Rightarrow> exn + pystr list" where
  "fetch_proxies_body fetched =
     (case fetched of
        Raised e \<Rightarrow> Inl e
      | Returned raw \<Rightarrow>
          (let content = strip raw
           in Inr (parse_lines (take 10 (split_nl content)) [])))"

definition fetch_proxies :: "pystr outcome \<Rightarrow> pystr list" where
  "fetch_proxies fetched =
     (case fetch_proxies_body fetched of Inl e \<Rightarrow> [] | Inr proxies \<Rightarrow> proxies)"

definition initialize_proxies :: "pystr outcome \<Rightarrow> pystr list \<Rightarrow> pystr list" where
  "initialize_proxies fetched PROXY_POOL =
     (let proxies = fetch_proxies fetched
      in if proxies \<noteq> [] then proxies else PROXY_POOL)"

inductive reachable_pool_https :: "pystr list \<Rightarrow> bool" where
  start_https: "reachable_pool_https []"
| init_https: "reachable_pool_https P \<Longrightarrow> reachable_pool_https (initialize_proxies a P)"

definition get_proxy :: "pystr list \<Rightarrow> nat \<Rightarrow> pystr option" where
  "get_proxy PROXY_POOL r =
     (if PROXY_POOL \<noteq> [] then Some (random_choice r PROXY_POOL) else None)"

definition https_sites :: "string list" where
  "https_sites = [''google'', ''github'', ''facebook'', ''twitter'']"

definition normalize_url :: "string \<Rightarrow> string" where
  "normalize_url path0 =
     (let path = (if startswith path0 ''/'' then drop 1 path0 else path0)
      in if \<not> (startswith path ''http://'' \<or> startswith path ''https://'') then
           (if list_ex (\<lambda>site. py_in site (lower path)) https_sites
            then ''https://'' @ path
            else ''http://'' @ path)
         else path)"

section \<open>The spec's reading of the HTTPS heuristic\<close>

text \<open>
  The spec's words, for comparison with \<open>normalize_url\<close>: a URL without a scheme gets
  \<open>https://\<close> when its host matches the host list, \<open>http://\<close> otherwise. The host of a URL
  without a scheme is what stands before its first slash.
\<close>

definition spec_host :: "string \<Rightarrow> string" where
  "spec_host url = takeWhile (\<lambda>c. c \<noteq> CHR ''/'') url"

definition spec_normalize_url :: "string \<Rightarrow> string" where
  "spec_normalize_url url =
     (if list_ex (\<lambda>site. py_in site (lower (spec_host url))) https_sites
      then ''https://'' @ url
      else ''http://'' @ url)"

section \<open>Observations on one attempt\<close>

text \<open>
  Projections of \<open>try_body\<close>, used to state properties of the loop: the proxy an attempt
  goes through (\<open>None\<close>: directly), the exception the attempt ends with (\<open>None\<close>: it
  returned), and the client calls of the attempt that returned.
\<close>

definition chosen_proxy :: "forward_world \<Rightarrow> pystr list \<Rightarrow> nat \<Rightarrow> pystr option" where
  "chosen_proxy w PROXY_POOL attempt =
     (if PROXY_POOL = [] then None
      else (let proxy = get_random_proxy PROXY_POOL (draw w attempt)
            in if falsy proxy then None else proxy))"

definition attempt_exn ::
  "forward_world \<Rightarrow> pystr list \<Rightarrow> string \<Rightarrow> (string \<times> string) list \<Rightarrow> nat \<Rightarrow> exn option" where
  "attempt_exn w PROXY_POOL url hdrs attempt =
     snd (snd (try_body w PROXY_POOL url hdrs attempt None handler0))"

definition attempt_sent ::
  "forward_world \<Rightarrow> pystr list \<Rightarrow> string \<Rightarrow> (string \<times> string) list \<Rightarrow> nat \<Rightarrow>
   client_event list" where
  "attempt_sent w PROXY_POOL url hdrs attempt =
     sent (fst (snd (try_body w PROXY_POOL url hdrs attempt None handler0)))"

text \<open>What the \<open>except\<close> clause of the last attempt sends, by exception class.\<close>

definition error_reply :: "exn \<Rightarrow> client_event" where
  "error_reply e =
     (case e of
        HTTPError code reason \<Rightarrow> SendError code (exn_str e)
      | URLError reason \<Rightarrow> SendError 504 (exn_str e)
      | TimeoutError msg \<Rightarrow> SendError 504 ''Request timed out''
      | ConnectionError msg \<Rightarrow> SendError 500 (exn_str e)
      | OtherException msg \<Rightarrow> SendError 500 (exn_str e))"

text \<open>
  What one pass through the loop body adds to the client calls that returned, the
  \<open>except\<close> clause included, when \<open>send_error\<close> returns.
\<close>

definition attempt_out ::
  "forward_world \<Rightarrow> pystr list \<Rightarrow> string \<Rightarrow> (string \<times> string) list \<Rightarrow> nat \<Rightarrow>
   client_event list" where
  "attempt_out w PROXY_POOL url hdrs attempt =
     attempt_sent w PROXY_POOL url hdrs attempt @
     (case attempt_exn w PROXY_POOL url hdrs attempt of
        None \<Rightarrow> []
      | Some e \<Rightarrow> if attempt = max_retries - 1 then [error_reply e] else [])"

section \<open>Example inputs\<close>

text \<open>A body with surrounding whitespace, an empty line, a line with no colon, a CR and an EM SPACE.\<close>

definition listing :: pystr where
  "listing = py '' 1.2.3.4:80'' @ [10] @ py ''not a proxy'' @ [10, 10]
             @ py ''5.6.7.8:8080 '' @ [13, 10] @ [8195] @ py ''9.9.9.9:3128'' @ [10]"

definition candidates :: "pystr list" where
  "candidates = [py ''http://1.2.3.4:80'', py ''http://5.6.7.8:8080'', py ''http://9.9.9.9:3128'']"

definition reply_200 :: response where
  "reply_200 = \<lparr>status = 200, headers = [(''Content-Type'', ''text/plain'')],
                body = Returned ''1.2.3.4''\<rparr>"

definition reply_404 :: response where
  "reply_404 = \<lparr>status = 404, headers = [(''Content-Type'', ''text/html'')],
                body = Returned ''no such page''\<rparr>"

text \<open>A 200 response whose body cannot be read: the read times out.\<close>

definition reply_cut :: response where
  "reply_cut = \<lparr>status = 200, headers = [(''Content-Type'', ''text/plain'')],
                body = Raised (TimeoutError ''timed out'')\<rparr>"

definition world_none_pass :: refresh_world where
  "world_none_pass =
     \<lparr>api_answer = Returned listing,
      probe_answer = (\<lambda>tested proxy url. Raised (URLError ''[Errno 111] Connection refused''))\<rparr>"

definition world_second_passes :: refresh_world where
  "world_second_passes =
     \<lparr>api_answer = Returned listing,
      probe_answer = (\<lambda>tested proxy url.
        if tested = 1 then Returned reply_200 else Raised (TimeoutError ''timed out''))\<rparr>"

definition world_fetch_fails :: refresh_world where
  "world_fetch_fails =
     \<lparr>api_answer = Raised (HTTPError 503 ''Service Unavailable''),
      probe_answer = (\<lambda>tested proxy url. Returned reply_200)\<rparr>"

definition target :: string where
  "target = ''http://example.com/page''"

definition pool3 :: "pystr list" where
  "pool3 = [py ''http://10.0.0.1:3128'', py ''http://10.0.0.2:3128'', py ''http://10.0.0.3:3128'']"

definition world_404_then_200 :: forward_world where
  "world_404_then_200 =
     \<lparr>draw = (\<lambda>attempt. attempt),
      urlopen = (\<lambda>attempt proxy url hdrs.
        if attempt = 0 then urllib_open (HttpReply reply_404 ''Not Found'')
        else urllib_open (HttpReply reply_200 ''OK'')),
      client = (\<lambda>attempt i. None),
      client_error = (\<lambda>attempt. None)\<rparr>"

definition world_fail_fail_200 :: forward_world where
  "world_fail_fail_200 =
     \<lparr>draw = (\<lambda>attempt. attempt),
      urlopen = (\<lambda>attempt proxy url hdrs.
        if attempt = 0 then urllib_open (ConnectFailure ''[Errno 111] Connection refused'')
        else if attempt = 1 then urllib_open ResponseTimeout
        else urllib_open (HttpReply reply_200 ''OK'')),
      client = (\<lambda>attempt i. None),
      client_error = (\<lambda>attempt. None)\<rparr>"

definition world_all_fail :: forward_world where
  "world_all_fail =
     \<lparr>draw = (\<lambda>attempt. 7),
      urlopen = (\<lambda>attempt proxy url hdrs.
        if attempt = 0 then urllib_open (ConnectFailure ''[Errno 111] Connection refused'')
        else if attempt = 1 then urllib_open (OtherFailure ''bad status line'')
        else urllib_open (HttpReply reply_404 ''Not Found'')),
      client = (\<lambda>attempt i. None),
      client_error = (\<lambda>attempt. None)\<rparr>"



text \<open>The upstream answers 200 every time, and the client has gone away.\<close>

definition world_client_gone :: forward_world where
  "world_client_gone =
     \<lparr>draw = (\<lambda>attempt. attempt),
      urlopen = (\<lambda>attempt proxy url hdrs. urllib_open (HttpReply reply_200 ''OK'')),
      client = (\<lambda>attempt i. if i = 2 then Some (ConnectionError ''[Errno 32] Broken pipe'') else None),
      client_error = (\<lambda>attempt. Some (ConnectionError ''[Errno 32] Broken pipe''))\<rparr>"

section \<open>Evaluating the definitions on concrete inputs\<close>

lemmas fetch_defs =
  fetch_proxies_from_api_def fetch_body_def fetch_proxies_def fetch_proxies_body_def
  strip_def py_isspace_def py_def listing_def candidates_def

lemmas refresh_defs =
  update_proxy_pool_def get_working_proxies_def validate_proxy_def validate_body_def
  world_none_pass_def world_second_passes_def world_fetch_fails_def reply_200_def

lemmas forward_defs =
  forward_request_def max_retries_def try_body_def copy_response_def copy_events_def
  add_log_def handle_exn_def send_error_def handler0_def upt_rec proxy_label_def
  get_random_proxy_def random_choice_def falsy_def urllib_open_def
  attempt_exn_def attempt_sent_def chosen_proxy_def
  reply_200_def reply_404_def reply_cut_def pool3_def py_def

section \<open>Strings\<close>

lemma startswith_iff: "startswith s p \<longleftrightarrow> (\<exists>t. s = p @ t)"
  by (induction s p rule: startswith.induct) auto

lemma py_in_iff: "py_in sub s \<longleftrightarrow> (\<exists>a b. s = a @ sub @ b)"
proof (induction s)
  case Nil
  then show ?case by simp
next
  case (Cons c cs)
  show ?case
  proof
    assume "py_in sub (c # cs)"
    then consider "startswith (c # cs) sub" | "py_in sub cs" by auto
    then show "\<exists>a b. c # cs = a @ sub @ b"
    proof cases
      case 1
      then obtain t where "c # cs = sub @ t" by (auto simp: startswith_iff)
      then have "c # cs = [] @ sub @ t" by simp
      then show ?thesis by blast
    next
      case 2
      then obtain a b where "cs = a @ sub @ b" using Cons.IH by blast
      then have "c # cs = (c # a) @ sub @ b" by simp
      then show ?thesis by blast
    qed
  next
    assume "\<exists>a b. c # cs = a @ sub @ b"
    then obtain a b where ab: "c # cs = a @ sub @ b" by blast
    show "py_in sub (c # cs)"
    proof (cases a)
      case Nil
      with ab have "startswith (c # cs) sub" by (auto simp: startswith_iff)
      then show ?thesis by simp
    next
      case (Cons x a')
      with ab have "cs = a' @ sub @ b" by simp
      then have "py_in sub cs" using Cons.IH by blast
      then show ?thesis by simp
    qed
  qed
qed

lemma py_colon: "py '':'' = [58]"
  by (simp add: py_def)

lemma py_http: "py ''http://'' = [104, 116, 116, 112, 58, 47, 47]"
  by (simp add: py_def)

lemma py_in_colon: "py_in (py '':'') s \<longleftrightarrow> 58 \<in> set s"
  unfolding py_colon by (induction s) auto

text \<open>The pieces of \<open>split_nl\<close> hold no newline, and joined by newlines they give the string back.\<close>

lemma split_nl_nonempty: "split_nl s \<noteq> []"
  by (induction s) (auto split: list.splits)

lemma split_nl_no_newline: "l \<in> set (split_nl s) \<Longrightarrow> 10 \<notin> set l"
  by (induction s arbitrary: l) (auto split: if_splits list.splits)

lemma split_nl_join: "concat (map (\<lambda>l. 10 # l) (split_nl s)) = 10 # s"
  by (induction s) (auto split: list.splits)

text \<open>
  \<open>strip\<close> cuts whitespace, and nothing else, off both ends, and what it leaves neither
  begins nor ends with whitespace.
\<close>

lemma strip_decomp:
  "\<exists>a b. s = a @ strip s @ b \<and> list_all py_isspace a \<and> list_all py_isspace b"
proof -
  let ?r = "dropWhile py_isspace s"
  let ?a = "takeWhile py_isspace s"
  let ?b = "rev (takeWhile py_isspace (rev ?r))"
  have "?r = rev (dropWhile py_isspace (rev ?r)) @ ?b"
    by (metis rev_append rev_rev_ident takeWhile_dropWhile_id)
  then have r: "?r = strip s @ ?b" by (simp only: strip_def)
  have "s = ?a @ ?r" by simp
  with r have "s = ?a @ strip s @ ?b" by simp
  moreover have "list_all py_isspace ?a"
    by (auto simp: list_all_iff dest: set_takeWhileD)
  moreover have "list_all py_isspace ?b"
    by (auto simp: list_all_iff dest: set_takeWhileD)
  ultimately show ?thesis by blast
qed

lemma strip_ends:
  "strip s = [] \<or> (\<not> py_isspace (hd (strip s)) \<and> \<not> py_isspace (last (strip s)))"
proof (cases "strip s = []")
  case True
  then show ?thesis by simp
next
  case False
  let ?r = "dropWhile py_isspace s"
  let ?d = "dropWhile py_isspace (rev ?r)"
  have s: "strip s = rev ?d" by (simp add: strip_def)
  with False have d: "?d \<noteq> []" by simp
  have r: "?r \<noteq> []"
  proof
    assume "?r = []"
    then have "?d = []" by (simp only: rev.simps(1) dropWhile.simps(1))
    with d show False by simp
  qed
  have "last (strip s) = hd ?d" using d s by (simp add: last_rev)
  moreover have "\<not> py_isspace (hd ?d)" using d by (rule hd_dropWhile)
  moreover have "hd (strip s) = last ?d" using d s by (simp add: hd_rev)
  moreover have "last ?d = last (rev ?r)"
    using d by (metis last_appendR takeWhile_dropWhile_id)
  moreover have "last (rev ?r) = hd ?r" using r by (simp add: last_rev)
  moreover have "\<not> py_isspace (hd ?r)" using r by (rule hd_dropWhile)
  ultimately show ?thesis by simp
qed

section \<open>Fetching and validating\<close>

lemma parse_lines_eq:
  "parse_lines ls acc =
     acc @ map (\<lambda>l. py ''http://'' @ l)
             (filter (\<lambda>l. l \<noteq> [] \<and> 58 \<in> set l) (map strip ls))"
  by (induction ls arbitrary: acc) (simp_all add: Let_def py_in_colon)

lemma fetch_http: "p \<in> set (fetch_proxies_from_api a) \<Longrightarrow> startswith p (py ''http://'')"
  by (cases a)
     (auto simp: fetch_proxies_from_api_def fetch_body_def parse_lines_eq startswith_iff)

lemma fetch_proxies_http: "p \<in> set (fetch_proxies a) \<Longrightarrow> startswith p (py ''http://'')"
  by (cases a)
     (auto simp: fetch_proxies_def fetch_proxies_body_def parse_lines_eq startswith_iff)

text \<open>
  C7: \<open>fetch_proxies_from_api\<close> returns a list whatever the call to the listing service did:
  the empty list when anything in the \<open>try\<close> body raised (a network error, a timeout, a
  non-2xx answer, which \<open>urlopen\<close> raises as \<open>HTTPError\<close>), and otherwise \<open>http://\<close> before
  each trimmed piece of the trimmed body that is not empty and holds a colon, in order;
  every other piece is dropped. Trimming and cutting are pinned down by what they do:
  \<open>strip\<close> removes whitespace only, from both ends, until neither end is whitespace; the
  pieces of \<open>split_nl\<close> hold no newline and, joined by newlines, give the string back;
  whitespace is the listed code points.
\<close>

theorem fetch_never_raises_accepts_colon_lines:
  "fetch_proxies_from_api (Raised e) = [] \<and>
   fetch_proxies_from_api (Returned raw) =
     map (\<lambda>l. [104, 116, 116, 112, 58, 47, 47] @ l)
       (filter (\<lambda>l. l \<noteq> [] \<and> 58 \<in> set l) (map strip (split_nl (strip raw)))) \<and>
   (\<exists>a b. s = a @ strip s @ b \<and> list_all py_isspace a \<and> list_all py_isspace b) \<and>
   (strip s = [] \<or> (\<not> py_isspace (hd (strip s)) \<and> \<not> py_isspace (last (strip s)))) \<and>
   split_nl s \<noteq> [] \<and>
   list_all (\<lambda>l. 10 \<notin> set l) (split_nl s) \<and>
   concat (map (\<lambda>l. 10 # l) (split_nl s)) = 10 # s \<and>
   (py_isspace c \<longleftrightarrow>
      c \<in> {9, 10, 11, 12, 13, 28, 29, 30, 31, 32, 133, 160, 5760}
          \<union> {8192..8202} \<union> {8232, 8233, 8239, 8287, 12288})"
proof -
  have 1: "fetch_proxies_from_api (Raised e) = []"
    by (simp add: fetch_proxies_from_api_def fetch_body_def)
  have 2: "fetch_proxies_from_api (Returned raw) =
     map (\<lambda>l. [104, 116, 116, 112, 58, 47, 47] @ l)
       (filter (\<lambda>l. l \<noteq> [] \<and> 58 \<in> set l) (map strip (split_nl (strip raw))))"
    by (simp add: fetch_proxies_from_api_def fetch_body_def parse_lines_eq py_http)
  have 3: "list_all (\<lambda>l. 10 \<notin> set l) (split_nl s)"
    using split_nl_no_newline by (auto simp: list_all_iff)
  have 4: "py_isspace c \<longleftrightarrow>
      c \<in> {9, 10, 11, 12, 13, 28, 29, 30, 31, 32, 133, 160, 5760}
          \<union> {8192..8202} \<union> {8232, 8233, 8239, 8287, 12288}"
    unfolding py_isspace_def by (simp; presburger)
  show ?thesis
    using 1 2 3 4 strip_decomp[of s] strip_ends[of s] split_nl_nonempty[of s] split_nl_join[of s]
    by blast
qed

theorem fetch_never_raises_accepts_colon_lines_witness:
  "fetch_proxies_from_api (Raised (TimeoutError ''timed out'')) = [] \<and>
   fetch_proxies_from_api (Raised (HTTPError 503 ''Service Unavailable'')) = [] \<and>
   strip [32, 49, 46, 50, 46, 51, 46, 52, 58, 56, 48, 8195, 160, 10] =
     [49, 46, 50, 46, 51, 46, 52, 58, 56, 48] \<and>
   split_nl [49, 58, 50, 10, 10, 51, 32, 10] = [[49, 58, 50], [], [51, 32], []] \<and>
   fetch_proxies_from_api
     (Returned [32, 49, 58, 50, 10, 110, 111, 10, 10, 8195, 51, 58, 52, 32, 13, 10]) =
     [[104, 116, 116, 112, 58, 47, 47, 49, 58, 50], [104, 116, 116, 112, 58, 47, 47, 51, 58, 52]] \<and>
   fetch_proxies_from_api (Returned listing) = candidates"
proof -
  have evaluated:
    "fetch_proxies_from_api (Raised (TimeoutError ''timed out'')) = [] \<and>
     fetch_proxies_from_api (Raised (HTTPError 503 ''Service Unavailable'')) = [] \<and>
     strip [32, 49, 46, 50, 46, 51, 46, 52, 58, 56, 48, 8195, 160, 10] =
       [49, 46, 50, 46, 51, 46, 52, 58, 56, 48] \<and>
     split_nl [49, 58, 50, 10, 10, 51, 32, 10] = [[49, 58, 50], [], [51, 32], []] \<and>
     fetch_proxies_from_api
       (Returned [32, 49, 58, 50, 10, 110, 111, 10, 10, 8195, 51, 58, 52, 32, 13, 10]) =
       [[104, 116, 116, 112, 58, 47, 47, 49, 58, 50], [104, 116, 116, 112, 58, 47, 47, 51, 58, 52]] \<and>
     fetch_proxies_from_api (Returned listing) = candidates"
    by (simp add: fetch_defs)
  have "fetch_proxies_from_api
     (Returned [32, 49, 58, 50, 10, 110, 111, 10, 10, 8195, 51, 58, 52, 32, 13, 10]) =
     map (\<lambda>l. [104, 116, 116, 112, 58, 47, 47] @ l)
       (filter (\<lambda>l. l \<noteq> [] \<and> 58 \<in> set l) (map strip (split_nl
          (strip [32, 49, 58, 50, 10, 110, 111, 10, 10, 8195, 51, 58, 52, 32, 13, 10]))))"
    using fetch_never_raises_accepts_colon_lines[of "TimeoutError ''timed out''"
        "[32, 49, 58, 50, 10, 110, 111, 10, 10, 8195, 51, 58, 52, 32, 13, 10]" "[]" 0]
    by blast
  with evaluated show ?thesis by blast
qed

text \<open>
  C8: \<open>validate_proxy\<close> is true exactly when the probe yields a response whose status is 200;
  a probe that raises gives false, and no exception leaves the function.
\<close>

theorem validate_proxy_iff_200:
  "(validate_proxy pr \<longleftrightarrow> (\<exists>r. pr = Returned r \<and> status r = 200)) \<and>
   \<not> validate_proxy (Raised e)"
  by (cases pr) (auto simp: validate_proxy_def validate_body_def)

section \<open>Refreshing the pool\<close>

lemma working_loop_subset:
  "set (working_loop w m ps t acc) \<subseteq> set acc \<union> set ps"
proof (induction ps arbitrary: t acc)
  case Nil
  then show ?case by simp
next
  case (Cons p ps)
  have a: "set (working_loop w m ps (t + 1) (acc @ [p])) \<subseteq> set (acc @ [p]) \<union> set ps"
    by (rule Cons.IH)
  have b: "set (working_loop w m ps (t + 1) acc) \<subseteq> set acc \<union> set ps"
    by (rule Cons.IH)
  show ?case using a b by auto
qed

lemma update_http:
  assumes "\<forall>p\<in>set P. startswith p (py ''http://'')"
  shows "\<forall>p\<in>set (update_proxy_pool w P). startswith p (py ''http://'')"
proof
  fix p assume p: "p \<in> set (update_proxy_pool w P)"
  let ?new = "fetch_proxies_from_api (api_answer w)"
  have "set (get_working_proxies w ?new 100) \<subseteq> set ?new"
    using working_loop_subset[of w 100 ?new 0 "[]"] by (simp add: get_working_proxies_def)
  moreover have "set (take 50 ?new) \<subseteq> set ?new" by (rule set_take_subset)
  ultimately have "p \<in> set P \<or> p \<in> set ?new"
    using p by (auto simp: update_proxy_pool_def Let_def split: if_splits)
  then show "startswith p (py ''http://'')" using assms fetch_http by blast
qed

text \<open>A refresh never empties a pool that holds entries.\<close>

lemma update_nonempty: "P \<noteq> [] \<Longrightarrow> update_proxy_pool w P \<noteq> []"
  by (simp add: update_proxy_pool_def Let_def)

lemma reachable_http: "reachable_pool P \<Longrightarrow> \<forall>p\<in>set P. startswith p (py ''http://'')"
  by (induction rule: reachable_pool.induct) (simp_all add: update_http)

lemma reachable_https_http:
  "reachable_pool_https P \<Longrightarrow> \<forall>p\<in>set P. startswith p (py ''http://'')"
  by (induction rule: reachable_pool_https.induct)
     (auto simp: initialize_proxies_def Let_def fetch_proxies_http)

text \<open>
  C2: when the fetch gives a non-empty candidate list and none of the candidates that
  \<open>get_working_proxies\<close> probes (the first 100, fewer when fewer exist) passes validation,
  \<open>update_proxy_pool\<close> sets the pool to the first 50 candidates, all of them when fewer
  exist, whatever the pool was before.
\<close>

theorem update_fallback_untested_prefix:
  assumes "fetch_proxies_from_api (api_answer w) = cands" and "cands \<noteq> []"
    and "\<forall>i < min 100 (length cands).
           \<not> validate_proxy (probe_answer w i (cands ! i) test_url)"
  shows "update_proxy_pool w P = take 50 cands \<and>
         length (update_proxy_pool w P) = min 50 (length cands) \<and>
         update_proxy_pool w P \<noteq> []"
proof -
  have none: "working_loop w m ps t acc = acc"
    if "\<forall>i < min (m - t) (length ps).
          \<not> validate_proxy (probe_answer w (t + i) (ps ! i) test_url)" for m ps t acc
    using that
  proof (induction ps arbitrary: t)
    case Nil
    then show ?case by simp
  next
    case (Cons p ps)
    show ?case
    proof (cases "t \<ge> m")
      case True
      then show ?thesis by simp
    next
      case False
      then have tm: "t < m" by simp
      have p: "\<not> validate_proxy (probe_answer w t p test_url)"
        using Cons.prems[rule_format, of 0] tm by simp
      have rest: "\<forall>i < min (m - (t + 1)) (length ps).
          \<not> validate_proxy (probe_answer w (t + 1 + i) (ps ! i) test_url)"
      proof (intro allI impI)
        fix i assume i: "i < min (m - (t + 1)) (length ps)"
        then have "Suc i < min (m - t) (length (p # ps))" by auto
        from Cons.prems[rule_format, OF this]
        show "\<not> validate_proxy (probe_answer w (t + 1 + i) (ps ! i) test_url)"
          by simp
      qed
      show ?thesis using tm p Cons.IH[OF rest] by simp
    qed
  qed
  have "get_working_proxies w cands 100 = []"
    unfolding get_working_proxies_def using assms(3) by (intro none) simp
  then show ?thesis using assms(1,2) by (simp add: update_proxy_pool_def min.commute)
qed

theorem update_fallback_untested_prefix_witness:
  "fetch_proxies_from_api (api_answer world_none_pass) =
     [py ''http://1.2.3.4:80'', py ''http://5.6.7.8:8080'', py ''http://9.9.9.9:3128''] \<and>
   \<not> validate_proxy (probe_answer world_none_pass 0 (py ''http://1.2.3.4:80'') test_url) \<and>
   \<not> validate_proxy (probe_answer world_none_pass 1 (py ''http://5.6.7.8:8080'') test_url) \<and>
   \<not> validate_proxy (probe_answer world_none_pass 2 (py ''http://9.9.9.9:3128'') test_url) \<and>
   update_proxy_pool world_none_pass [py ''http://10.0.0.1:3128''] =
     [py ''http://1.2.3.4:80'', py ''http://5.6.7.8:8080'', py ''http://9.9.9.9:3128''] \<and>
   length (update_proxy_pool world_none_pass [py ''http://10.0.0.1:3128'']) = 3 \<and>
   validate_proxy (probe_answer world_second_passes 1 (py ''http://5.6.7.8:8080'') test_url) \<and>
   update_proxy_pool world_second_passes [py ''http://10.0.0.1:3128''] =
     [py ''http://5.6.7.8:8080'']"
proof -
  let ?cands = "[py ''http://1.2.3.4:80'', py ''http://5.6.7.8:8080'', py ''http://9.9.9.9:3128'']"
  have f: "fetch_proxies_from_api (api_answer world_none_pass) = ?cands"
    by (simp add: fetch_defs refresh_defs)
  have n: "?cands \<noteq> []" by simp
  have v: "\<forall>i < min 100 (length ?cands).
      \<not> validate_proxy (probe_answer world_none_pass i (?cands ! i) test_url)"
    by (simp add: world_none_pass_def validate_proxy_def validate_body_def)
  have v3: "\<not> validate_proxy (probe_answer world_none_pass 0 (py ''http://1.2.3.4:80'') test_url)"
    "\<not> validate_proxy (probe_answer world_none_pass 1 (py ''http://5.6.7.8:8080'') test_url)"
    "\<not> validate_proxy (probe_answer world_none_pass 2 (py ''http://9.9.9.9:3128'') test_url)"
    by (simp_all add: world_none_pass_def validate_proxy_def validate_body_def)
  have evaluated:
    "update_proxy_pool world_none_pass [py ''http://10.0.0.1:3128''] =
       [py ''http://1.2.3.4:80'', py ''http://5.6.7.8:8080'', py ''http://9.9.9.9:3128''] \<and>
     length (update_proxy_pool world_none_pass [py ''http://10.0.0.1:3128'']) = 3 \<and>
     validate_proxy (probe_answer world_second_passes 1 (py ''http://5.6.7.8:8080'') test_url) \<and>
     update_proxy_pool world_second_passes [py ''http://10.0.0.1:3128''] =
       [py ''http://5.6.7.8:8080'']"
    by (simp add: fetch_defs refresh_defs)
  from update_fallback_untested_prefix[OF f n v, of "[py ''http://10.0.0.1:3128'']"] f v3
    evaluated
  show ?thesis by blast
qed

text \<open>
  C3: when the fetch gives the empty list, \<open>update_proxy_pool\<close> leaves a populated pool as
  it is: the same entries, the same length.
\<close>

theorem update_keeps_pool_on_empty_fetch:
  "P \<noteq> [] \<Longrightarrow> fetch_proxies_from_api (api_answer w) = [] \<Longrightarrow>
   update_proxy_pool w P = P \<and> length (update_proxy_pool w P) = length P"
  by (simp add: update_proxy_pool_def)

theorem update_keeps_pool_on_empty_fetch_witness:
  "[py ''http://10.0.0.1:3128'', py ''http://10.0.0.2:3128''] \<noteq> [] \<and>
   fetch_proxies_from_api (api_answer world_fetch_fails) = [] \<and>
   update_proxy_pool world_fetch_fails [py ''http://10.0.0.1:3128'', py ''http://10.0.0.2:3128''] =
     [py ''http://10.0.0.1:3128'', py ''http://10.0.0.2:3128''] \<and>
   length (update_proxy_pool world_fetch_fails
             [py ''http://10.0.0.1:3128'', py ''http://10.0.0.2:3128'']) = 2"
proof -
  have n: "[py ''http://10.0.0.1:3128'', py ''http://10.0.0.2:3128''] \<noteq> []" by simp
  have f: "fetch_proxies_from_api (api_answer world_fetch_fails) = []"
    by (simp add: world_fetch_fails_def fetch_proxies_from_api_def fetch_body_def)
  have evaluated:
    "update_proxy_pool world_fetch_fails [py ''http://10.0.0.1:3128'', py ''http://10.0.0.2:3128''] =
       [py ''http://10.0.0.1:3128'', py ''http://10.0.0.2:3128''] \<and>
     length (update_proxy_pool world_fetch_fails
               [py ''http://10.0.0.1:3128'', py ''http://10.0.0.2:3128'']) = 2"
    by (simp add: fetch_defs refresh_defs)
  from update_keeps_pool_on_empty_fetch[OF n f] f n evaluated show ?thesis by blast
qed

text \<open>
  C9: every entry of every pool the process can hold begins with \<open>http://\<close>. This holds in
  app.py, where the pool starts empty and changes only in \<open>update_proxy_pool\<close>, and in
  working_https_proxy.py, where it changes only in \<open>initialize_proxies\<close>.
\<close>

theorem pool_entries_start_with_http:
  "reachable_pool P \<or> reachable_pool_https P \<Longrightarrow> \<forall>p\<in>set P. \<exists>rest. p = py ''http://'' @ rest"
  using reachable_http reachable_https_http startswith_iff by blast

theorem pool_entries_start_with_http_witness:
  "reachable_pool (update_proxy_pool world_second_passes (update_proxy_pool world_none_pass [])) \<and>
   update_proxy_pool world_second_passes (update_proxy_pool world_none_pass []) =
     [py ''http://5.6.7.8:8080''] \<and>
   (\<exists>rest. py ''http://5.6.7.8:8080'' = py ''http://'' @ rest) \<and>
   py ''http://'' = [104, 116, 116, 112, 58, 47, 47]"
proof -
  have r: "reachable_pool
      (update_proxy_pool world_second_passes (update_proxy_pool world_none_pass []))"
    by (intro reachable_pool.refresh reachable_pool.start)
  have evaluated:
    "update_proxy_pool world_second_passes (update_proxy_pool world_none_pass []) =
       [py ''http://5.6.7.8:8080''] \<and>
     py ''http://5.6.7.8:8080'' = py ''http://'' @ py ''5.6.7.8:8080'' \<and>
     py ''http://'' = [104, 116, 116, 112, 58, 47, 47]"
    by (simp add: fetch_defs refresh_defs)
  from pool_entries_start_with_http[OF disjI1, OF r] r evaluated show ?thesis
    by blast
qed

section \<open>Picking a proxy\<close>

text \<open>
  C6: \<open>get_random_proxy\<close> returns \<open>None\<close> exactly when the pool is empty, and on a pool that
  is not empty it returns one of the pool's entries, whatever the random draw.
\<close>

theorem get_random_proxy_member:
  "(get_random_proxy P r = None \<longleftrightarrow> P = []) \<and>
   (P \<noteq> [] \<longrightarrow> (\<exists>p. get_random_proxy P r = Some p \<and> p \<in> set P))"
  by (simp add: get_random_proxy_def random_choice_def)

theorem get_random_proxy_member_witness:
  "[py ''http://1.2.3.4:80'', py ''http://5.6.7.8:8080''] \<noteq> [] \<and>
   get_random_proxy [py ''http://1.2.3.4:80'', py ''http://5.6.7.8:8080''] 5
     = Some (py ''http://5.6.7.8:8080'') \<and>
   py ''http://5.6.7.8:8080'' \<in> set [py ''http://1.2.3.4:80'', py ''http://5.6.7.8:8080''] \<and>
   get_random_proxy [] 5 = None"
proof -
  have evaluated:
    "get_random_proxy [py ''http://1.2.3.4:80'', py ''http://5.6.7.8:8080''] 5
       = Some (py ''http://5.6.7.8:8080'') \<and>
     get_random_proxy [] 5 = None"
    by (simp add: get_random_proxy_def random_choice_def py_def eval_nat_numeral mod_Suc)
  from get_random_proxy_member[of "[py ''http://1.2.3.4:80'', py ''http://5.6.7.8:8080'']" 5]
    get_random_proxy_member[of "[]" 5] evaluated
  show ?thesis by simp
qed

section \<open>One attempt\<close>

lemma client_calls_ok:
  "(\<forall>j<length evs. cl (i + j) = None) \<Longrightarrow> client_calls cl i evs = (evs, None)"
proof (induction evs arbitrary: i)
  case Nil
  then show ?case by simp
next
  case (Cons ev evs)
  have 0: "cl i = None" using Cons.prems[rule_format, of 0] by simp
  have "\<forall>j<length evs. cl (i + 1 + j) = None"
  proof (intro allI impI)
    fix j assume "j < length evs"
    then have "Suc j < length (ev # evs)" by simp
    from Cons.prems[rule_format, OF this] show "cl (i + 1 + j) = None" by simp
  qed
  from Cons.IH[OF this] 0 show ?case by simp
qed

lemma client_calls_fail:
  "n < length evs \<Longrightarrow> (\<forall>j<n. cl (i + j) = None) \<Longrightarrow> cl (i + n) = Some e \<Longrightarrow>
   client_calls cl i evs = (take n evs, Some e)"
proof (induction evs arbitrary: i n)
  case Nil
  then show ?case by simp
next
  case (Cons ev evs)
  show ?case
  proof (cases n)
    case 0
    then show ?thesis using Cons.prems by simp
  next
    case (Suc m)
    have 0: "cl i = None" using Cons.prems(2)[rule_format, of 0] Suc by simp
    have m: "m < length evs" using Cons.prems(1) Suc by simp
    have a: "\<forall>j<m. cl (i + 1 + j) = None"
    proof (intro allI impI)
      fix j assume "j < m"
      then have "Suc j < n" using Suc by simp
      from Cons.prems(2)[rule_format, OF this] show "cl (i + 1 + j) = None" by simp
    qed
    have b: "cl (i + 1 + m) = Some e" using Cons.prems(3) Suc by simp
    from Cons.IH[OF m a b] 0 Suc show ?thesis by simp
  qed
qed

lemma copy_response_frame:
  "copy_response cl opened h = (h1, x) \<Longrightarrow>
     logged h1 = logged h \<and> slept h1 = slept h \<and> iterations h1 = iterations h \<and>
     escaped h1 = escaped h \<and>
     sent h1 = sent h @ fst (copy_events cl opened) \<and> x = snd (copy_events cl opened)"
  by (auto simp: copy_response_def split: prod.splits)

text \<open>Every attempt opens the URL through \<open>chosen_proxy\<close>, in whichever branch it runs.\<close>

lemma try_body_copy:
  "try_body w P url hdrs k pv h = (pv', h1, x) \<Longrightarrow>
     slept h1 = slept h \<and> iterations h1 = iterations h \<and> escaped h1 = escaped h \<and>
     sent h1 = sent h @
       fst (copy_events (client w k) (urlopen w k (chosen_proxy w P k) url hdrs)) \<and>
     x = snd (copy_events (client w k) (urlopen w k (chosen_proxy w P k) url hdrs))"
  unfolding try_body_def chosen_proxy_def Let_def
  by (auto simp: add_log_def split: if_splits prod.splits option.splits
      dest!: copy_response_frame)

lemma attempt_exn_eq:
  "attempt_exn w P url hdrs k =
     snd (copy_events (client w k) (urlopen w k (chosen_proxy w P k) url hdrs))"
  using try_body_copy[of w P url hdrs k None handler0]
  by (cases "try_body w P url hdrs k None handler0") (simp add: attempt_exn_def)

lemma attempt_sent_eq:
  "attempt_sent w P url hdrs k =
     fst (copy_events (client w k) (urlopen w k (chosen_proxy w P k) url hdrs))"
  using try_body_copy[of w P url hdrs k None handler0]
  by (cases "try_body w P url hdrs k None handler0") (simp add: attempt_sent_def handler0_def)

lemma try_body_frame:
  "try_body w P url hdrs k pv h = (pv', h1, x) \<Longrightarrow>
     slept h1 = slept h \<and> iterations h1 = iterations h \<and> escaped h1 = escaped h \<and>
     sent h1 = sent h @ attempt_sent w P url hdrs k \<and> x = attempt_exn w P url hdrs k"
  by (simp add: attempt_exn_eq attempt_sent_eq try_body_copy)

lemma handle_exn_frame:
  "handle_exn w e k pv url h = (h2, x) \<Longrightarrow>
     slept h2 = slept h \<and> iterations h2 = iterations h \<and> escaped h2 = escaped h \<and>
     (x = None \<longleftrightarrow> (k = max_retries - 1 \<longrightarrow> client_error w k = None)) \<and>
     sent h2 = sent h @ (if k = max_retries - 1 \<and> x = None then [error_reply e] else [])"
  by (cases e; cases "client_error w k")
     (auto simp: handle_exn_def Let_def add_log_def send_error_def error_reply_def
       split: if_splits)

lemma attempt_returned:
  assumes "urlopen w k (chosen_proxy w P k) url hdrs = Returned r" and "body r = Returned b"
    and "\<forall>i < length (headers r) + 3. client w k i = None"
  shows "attempt_exn w P url hdrs k = None \<and>
    attempt_sent w P url hdrs k =
      SendResponse (status r) # map (\<lambda>(key, val). SendHeader key val) (headers r)
        @ [EndHeaders, Write b]"
proof -
  let ?hd = "SendResponse (status r) # map (\<lambda>(key, val). SendHeader key val) (headers r)
      @ [EndHeaders]"
  have "\<forall>j<length ?hd. client w k (0 + j) = None" using assms(3) by simp
  then have 1: "client_calls (client w k) 0 ?hd = (?hd, None)" by (rule client_calls_ok)
  have "\<forall>j<length [Write b]. client w k (length (headers r) + 2 + j) = None"
    using assms(3) by simp
  then have 2: "client_calls (client w k) (length (headers r) + 2) [Write b] = ([Write b], None)"
    by (rule client_calls_ok)
  show ?thesis
    using assms(1,2) 1 2 by (simp add: attempt_exn_eq attempt_sent_eq copy_events_def)
qed

lemma attempt_raised:
  "urlopen w k (chosen_proxy w P k) url hdrs = Raised e \<Longrightarrow>
   attempt_exn w P url hdrs k = Some e \<and> attempt_sent w P url hdrs k = []"
  by (simp add: attempt_exn_eq attempt_sent_eq copy_events_def)

lemma attempt_client_raises:
  assumes "urlopen w k (chosen_proxy w P k) url hdrs = Returned r"
    and "n < length (headers r) + 2" and "\<forall>j<n. client w k j = None"
    and "client w k n = Some e"
  shows "attempt_exn w P url hdrs k = Some e \<and>
    attempt_sent w P url hdrs k =
      take n (SendResponse (status r) # map (\<lambda>(key, val). SendHeader key val) (headers r)
               @ [EndHeaders])"
proof -
  let ?hd = "SendResponse (status r) # map (\<lambda>(key, val). SendHeader key val) (headers r)
      @ [EndHeaders]"
  have "n < length ?hd" using assms(2) by simp
  moreover have "\<forall>j<n. client w k (0 + j) = None" using assms(3) by simp
  moreover have "client w k (0 + n) = Some e" using assms(4) by simp
  ultimately have "client_calls (client w k) 0 ?hd = (take n ?hd, Some e)"
    by (rule client_calls_fail)
  then show ?thesis
    using assms(1) by (simp add: attempt_exn_eq attempt_sent_eq copy_events_def)
qed

lemma attempt_out_early:
  "k < max_retries - 1 \<Longrightarrow> attempt_exn w P url hdrs k \<noteq> None \<Longrightarrow>
   attempt_out w P url hdrs k = attempt_sent w P url hdrs k"
  by (auto simp: attempt_out_def)

section \<open>The retry loop\<close>

lemma retry_loop_Cons_fail:
  assumes "attempt_exn w P url hdrs k = Some e"
    and "k = max_retries - 1 \<longrightarrow> client_error w k = None"
  shows "\<exists>pv' h'. retry_loop w P url hdrs (k # rest) pv h = retry_loop w P url hdrs rest pv' h' \<and>
           sent h' = sent h @ attempt_out w P url hdrs k \<and>
           iterations h' = iterations h + 1 \<and> slept h' = slept h + 1 \<and>
           escaped h' = escaped h"
proof -
  obtain pv' h1 x
    where tb: "try_body w P url hdrs k pv (h\<lparr>iterations := iterations h + 1\<rparr>) = (pv', h1, x)"
    by (cases "try_body w P url hdrs k pv (h\<lparr>iterations := iterations h + 1\<rparr>)") auto
  note fr = try_body_frame[OF tb]
  from fr assms have x: "x = Some e" by simp
  obtain h2 y where he: "handle_exn w e k pv' url h1 = (h2, y)"
    by (cases "handle_exn w e k pv' url h1") auto
  note hf = handle_exn_frame[OF he]
  from hf assms(2) have y: "y = None" by simp
  have "retry_loop w P url hdrs (k # rest) pv h =
        retry_loop w P url hdrs rest pv' (h2\<lparr>slept := slept h2 + 1\<rparr>)"
    using tb x he y by simp
  moreover have "sent (h2\<lparr>slept := slept h2 + 1\<rparr>) = sent h @ attempt_out w P url hdrs k"
    using fr assms(1) hf y by (simp add: attempt_out_def)
  moreover have "iterations (h2\<lparr>slept := slept h2 + 1\<rparr>) = iterations h + 1"
    using fr hf by simp
  moreover have "slept (h2\<lparr>slept := slept h2 + 1\<rparr>) = slept h + 1"
    using fr hf by simp
  moreover have "escaped (h2\<lparr>slept := slept h2 + 1\<rparr>) = escaped h"
    using fr hf by simp
  ultimately show ?thesis by blast
qed

lemma retry_loop_Cons_return:
  assumes "attempt_exn w P url hdrs k = None"
  shows "sent (retry_loop w P url hdrs (k # rest) pv h) = sent h @ attempt_sent w P url hdrs k \<and>
         iterations (retry_loop w P url hdrs (k # rest) pv h) = iterations h + 1 \<and>
         slept (retry_loop w P url hdrs (k # rest) pv h) = slept h \<and>
         escaped (retry_loop w P url hdrs (k # rest) pv h) = escaped h"
proof -
  obtain pv' h1 x
    where tb: "try_body w P url hdrs k pv (h\<lparr>iterations := iterations h + 1\<rparr>) = (pv', h1, x)"
    by (cases "try_body w P url hdrs k pv (h\<lparr>iterations := iterations h + 1\<rparr>)") auto
  note fr = try_body_frame[OF tb]
  from fr assms have x: "x = None" by simp
  show ?thesis using tb x fr by simp
qed

text \<open>Attempts that all raise are passed one by one, each adding what it wrote.\<close>

lemma retry_loop_skip:
  "\<forall>k\<in>set ks. attempt_exn w P url hdrs k \<noteq> None \<and>
               (k = max_retries - 1 \<longrightarrow> client_error w k = None) \<Longrightarrow>
   \<exists>pv' h'. retry_loop w P url hdrs (ks @ rest) pv h = retry_loop w P url hdrs rest pv' h' \<and>
      sent h' = sent h @ concat (map (attempt_out w P url hdrs) ks) \<and>
      iterations h' = iterations h + length ks \<and> slept h' = slept h + length ks \<and>
      escaped h' = escaped h"
proof (induction ks arbitrary: pv h)
  case Nil
  show ?case by (intro exI[of _ pv] exI[of _ h]) simp
next
  case (Cons k ks)
  from Cons.prems obtain e where e: "attempt_exn w P url hdrs k = Some e" by auto
  from Cons.prems have c: "k = max_retries - 1 \<longrightarrow> client_error w k = None" by simp
  from retry_loop_Cons_fail[OF e c, of "ks @ rest" pv h]
  obtain pv1 h1
    where 1: "retry_loop w P url hdrs (k # ks @ rest) pv h =
              retry_loop w P url hdrs (ks @ rest) pv1 h1"
      "sent h1 = sent h @ attempt_out w P url hdrs k"
      "iterations h1 = iterations h + 1" "slept h1 = slept h + 1" "escaped h1 = escaped h"
    by blast
  have rest: "\<forall>k\<in>set ks. attempt_exn w P url hdrs k \<noteq> None \<and>
               (k = max_retries - 1 \<longrightarrow> client_error w k = None)"
    using Cons.prems by simp
  from Cons.IH[OF rest, of pv1 h1]
  obtain pv2 h2
    where 2: "retry_loop w P url hdrs (ks @ rest) pv1 h1 = retry_loop w P url hdrs rest pv2 h2"
      "sent h2 = sent h1 @ concat (map (attempt_out w P url hdrs) ks)"
      "iterations h2 = iterations h1 + length ks" "slept h2 = slept h1 + length ks"
      "escaped h2 = escaped h1"
    by blast
  show ?case
    using 1 2 by (intro exI[of _ pv2] exI[of _ h2]) simp
qed

lemma retry_loop_iterations_ge:
  "iterations h + (if ks = [] then 0 else 1) \<le> iterations (retry_loop w P url hdrs ks pv h)"
proof (induction ks arbitrary: pv h)
  case Nil
  show ?case by simp
next
  case (Cons k ks)
  obtain pv' h1 x
    where tb: "try_body w P url hdrs k pv (h\<lparr>iterations := iterations h + 1\<rparr>) = (pv', h1, x)"
    by (cases "try_body w P url hdrs k pv (h\<lparr>iterations := iterations h + 1\<rparr>)") auto
  note fr = try_body_frame[OF tb]
  show ?case
  proof (cases x)
    case None
    then show ?thesis using tb fr by simp
  next
    case (Some e)
    obtain h2 y where he: "handle_exn w e k pv' url h1 = (h2, y)"
      by (cases "handle_exn w e k pv' url h1") auto
    note hf = handle_exn_frame[OF he]
    show ?thesis
    proof (cases y)
      case None
      have "iterations (h2\<lparr>slept := slept h2 + 1\<rparr>)
            \<le> iterations (retry_loop w P url hdrs ks pv' (h2\<lparr>slept := slept h2 + 1\<rparr>))"
        using Cons.IH[of "h2\<lparr>slept := slept h2 + 1\<rparr>" pv'] by (simp split: if_splits)
      then show ?thesis using tb Some he None fr hf by simp
    next
      case (Some e')
      then show ?thesis using tb \<open>x = Some e\<close> he fr hf by simp
    qed
  qed
qed

lemma upt_split3: "k < max_retries \<Longrightarrow> [0..<max_retries] = [0..<k] @ k # [Suc k..<max_retries]"
  by (metis upt_conv_Cons upt_add_eq_append le0 less_imp_le_nat add_0 le_add_diff_inverse)

text \<open>An attempt before the last that ends with an exception is followed by another pass.\<close>

lemma retry_after_exception:
  assumes "k + 1 < max_retries" and "\<forall>j<k. attempt_exn w P url hdrs j \<noteq> None"
    and "attempt_exn w P url hdrs k \<noteq> None"
  shows "k + 1 < iterations (forward_request w P url hdrs)"
proof -
  have prev: "\<forall>j\<in>set [0..<Suc k]. attempt_exn w P url hdrs j \<noteq> None \<and>
                 (j = max_retries - 1 \<longrightarrow> client_error w j = None)"
    using assms by (auto simp: less_Suc_eq)
  have split: "[0..<max_retries] = [0..<Suc k] @ (Suc k) # [Suc (Suc k)..<max_retries]"
    using upt_split3[of "Suc k"] assms(1) by simp
  from retry_loop_skip[OF prev, of "Suc k # [Suc (Suc k)..<max_retries]" None handler0]
  obtain pv' h'
    where sk: "retry_loop w P url hdrs ([0..<Suc k] @ Suc k # [Suc (Suc k)..<max_retries])
                 None handler0
       = retry_loop w P url hdrs (Suc k # [Suc (Suc k)..<max_retries]) pv' h'"
      "iterations h' = iterations handler0 + length [0..<Suc k]" by blast
  have "iterations h' + 1
        \<le> iterations (retry_loop w P url hdrs (Suc k # [Suc (Suc k)..<max_retries]) pv' h')"
    using retry_loop_iterations_ge[of h' "Suc k # [Suc (Suc k)..<max_retries]" w P url hdrs pv']
    by simp
  then show ?thesis
    unfolding forward_request_def split sk(1) using sk(2) by (simp add: handler0_def)
qed

section \<open>Forwarding\<close>

lemma world_404_then_200_run:
  "forward_request world_404_then_200 [] target [] =
     \<lparr>sent = [SendResponse 200, SendHeader ''Content-Type'' ''text/plain'', EndHeaders,
              Write ''1.2.3.4''],
      logged = [NoProxiesAvailable, HTTPErrorWith (py ''direct'') 404 target, NoProxiesAvailable,
                ForwardedDirectly target],
      slept = 1, iterations = 2, escaped = None\<rparr>"
  by (simp add: forward_request_def world_404_then_200_def reply_404_def reply_200_def
      urllib_open_def max_retries_def try_body_def copy_response_def copy_events_def add_log_def
      handle_exn_def send_error_def handler0_def upt_rec proxy_label_def)

text \<open>
  A client that has gone away: the upstream answers 200 in every attempt, \<open>end_headers\<close>
  raises in every attempt, the generic \<open>except\<close> clause catches it and the loop goes on;
  the \<open>send_error\<close> of the last attempt raises too and leaves \<open>forward_request\<close>.
\<close>

lemma world_client_gone_run:
  "iterations (forward_request world_client_gone [] target []) = 3 \<and>
   sent (forward_request world_client_gone [] target []) =
     [SendResponse 200, SendHeader ''Content-Type'' ''text/plain'',
      SendResponse 200, SendHeader ''Content-Type'' ''text/plain'',
      SendResponse 200, SendHeader ''Content-Type'' ''text/plain''] \<and>
   escaped (forward_request world_client_gone [] target []) =
     Some (ConnectionError ''[Errno 32] Broken pipe'')"
  by (simp add: forward_request_def world_client_gone_def reply_200_def
      urllib_open_def max_retries_def try_body_def copy_response_def copy_events_def add_log_def
      handle_exn_def send_error_def handler0_def upt_rec proxy_label_def)

text \<open>
  C1, as the claim states it, fails: the first attempt receives status 404 from the upstream
  with no transport error, \<open>urllib\<close> raises it as \<open>HTTPError\<close>, the \<open>except HTTPError\<close> clause
  logs it and the loop goes on; the second attempt's 200 response is what the caller gets.
\<close>

theorem forward_http_error_status_retried:
  "urlopen world_404_then_200 0 (chosen_proxy world_404_then_200 [] 0) target [] =
     urllib_open (HttpReply reply_404 ''Not Found'') \<and>
   status reply_404 = 404 \<and>
   iterations (forward_request world_404_then_200 [] target []) = 2 \<and>
   sent (forward_request world_404_then_200 [] target []) =
     [SendResponse 200, SendHeader ''Content-Type'' ''text/plain'', EndHeaders, Write ''1.2.3.4''] \<and>
   sent (forward_request world_404_then_200 [] target []) \<noteq>
     [SendResponse 404, SendHeader ''Content-Type'' ''text/html'', EndHeaders, Write ''no such page'']"
  by (simp add: forward_defs world_404_then_200_def)

text \<open>
  C1, amended: when the attempts before attempt \<open>k\<close> all raised, and in attempt \<open>k\<close> the open
  call returns a response object, its body is read, and every call on the client
  connection in that attempt returns, the loop ends in that attempt: the caller is sent
  that status, those headers and that body, after whatever the earlier attempts had
  written, and exactly \<open>k + 1\<close> passes were made. When instead an attempt before the last
  ends with an exception, a further pass is made: so it is when its open call raises
  \<open>HTTPError\<close>, as \<open>urllib\<close> does for a status outside 200..299, and when the response
  was opened and a call on the client connection raises before the body is read.
\<close>

theorem forward_returned_response_ends_loop:
  "(k < max_retries \<and> (\<forall>j<k. attempt_exn w P url hdrs j \<noteq> None) \<and>
    urlopen w k (chosen_proxy w P k) url hdrs = Returned r \<and> body r = Returned b \<and>
    (\<forall>i < length (headers r) + 3. client w k i = None) \<longrightarrow>
      sent (forward_request w P url hdrs) =
        concat (map (attempt_sent w P url hdrs) [0..<k]) @
        SendResponse (status r) # map (\<lambda>(key, val). SendHeader key val) (headers r)
          @ [EndHeaders, Write b] \<and>
      iterations (forward_request w P url hdrs) = k + 1 \<and>
      escaped (forward_request w P url hdrs) = None) \<and>
   (k + 1 < max_retries \<and> (\<forall>j<k. attempt_exn w P url hdrs j \<noteq> None) \<and>
    urlopen w k (chosen_proxy w P k) url hdrs = Raised (HTTPError code reason) \<longrightarrow>
      k + 1 < iterations (forward_request w P url hdrs)) \<and>
   (k + 1 < max_retries \<and> (\<forall>j<k. attempt_exn w P url hdrs j \<noteq> None) \<and>
    urlopen w k (chosen_proxy w P k) url hdrs = Returned r \<and>
    n < length (headers r) + 2 \<and> (\<forall>i<n. client w k i = None) \<and> client w k n = Some e \<longrightarrow>
      attempt_exn w P url hdrs k = Some e \<and>
      k + 1 < iterations (forward_request w P url hdrs))"
proof (intro conjI impI)
  assume a: "k < max_retries \<and> (\<forall>j<k. attempt_exn w P url hdrs j \<noteq> None) \<and>
    urlopen w k (chosen_proxy w P k) url hdrs = Returned r \<and> body r = Returned b \<and>
    (\<forall>i < length (headers r) + 3. client w k i = None)"
  then have k: "k < max_retries"
    and prev: "\<forall>j\<in>set [0..<k]. attempt_exn w P url hdrs j \<noteq> None \<and>
                 (j = max_retries - 1 \<longrightarrow> client_error w j = None)" by auto
  from a have ret: "attempt_exn w P url hdrs k = None"
    and snt: "attempt_sent w P url hdrs k =
     SendResponse (status r) # map (\<lambda>(key, val). SendHeader key val) (headers r)
       @ [EndHeaders, Write b]"
    using attempt_returned[of w k P url hdrs r b] by blast+
  from retry_loop_skip[OF prev, of "k # [Suc k..<max_retries]" None handler0]
  obtain pv' h'
    where sk: "retry_loop w P url hdrs ([0..<k] @ k # [Suc k..<max_retries]) None handler0
       = retry_loop w P url hdrs (k # [Suc k..<max_retries]) pv' h'"
      "sent h' = sent handler0 @ concat (map (attempt_out w P url hdrs) [0..<k])"
      "iterations h' = iterations handler0 + length [0..<k]"
      "escaped h' = escaped handler0" by blast
  have outs: "map (attempt_out w P url hdrs) [0..<k] = map (attempt_sent w P url hdrs) [0..<k]"
    using prev k by (intro map_cong) (auto simp: attempt_out_early)
  note r = retry_loop_Cons_return[OF ret, of "[Suc k..<max_retries]" pv' h']
  show "sent (forward_request w P url hdrs) =
        concat (map (attempt_sent w P url hdrs) [0..<k]) @
        SendResponse (status r) # map (\<lambda>(key, val). SendHeader key val) (headers r)
          @ [EndHeaders, Write b]"
    unfolding forward_request_def upt_split3[OF k] sk(1) using r sk(2) outs snt
    by (simp add: handler0_def)
  show "iterations (forward_request w P url hdrs) = k + 1"
    unfolding forward_request_def upt_split3[OF k] sk(1) using r sk(3)
    by (simp add: handler0_def)
  show "escaped (forward_request w P url hdrs) = None"
    unfolding forward_request_def upt_split3[OF k] sk(1) using r sk(4)
    by (simp add: handler0_def)
next
  assume a: "k + 1 < max_retries \<and> (\<forall>j<k. attempt_exn w P url hdrs j \<noteq> None) \<and>
    urlopen w k (chosen_proxy w P k) url hdrs = Raised (HTTPError code reason)"
  then have "attempt_exn w P url hdrs k \<noteq> None" using attempt_raised by fastforce
  with a show "k + 1 < iterations (forward_request w P url hdrs)"
    by (intro retry_after_exception) simp_all
next
  assume a: "k + 1 < max_retries \<and> (\<forall>j<k. attempt_exn w P url hdrs j \<noteq> None) \<and>
    urlopen w k (chosen_proxy w P k) url hdrs = Returned r \<and>
    n < length (headers r) + 2 \<and> (\<forall>i<n. client w k i = None) \<and> client w k n = Some e"
  then show e: "attempt_exn w P url hdrs k = Some e"
    using attempt_client_raises[of w k P url hdrs r n e] by blast
  with a show "k + 1 < iterations (forward_request w P url hdrs)"
    by (intro retry_after_exception) simp_all
qed

theorem forward_returned_response_ends_loop_witness:
  "(2 < max_retries \<and>
    attempt_exn world_fail_fail_200 pool3 target [] 0 \<noteq> None \<and>
    attempt_exn world_fail_fail_200 pool3 target [] 1 \<noteq> None \<and>
    urlopen world_fail_fail_200 2 (chosen_proxy world_fail_fail_200 pool3 2) target []
      = Returned reply_200 \<and>
    body reply_200 = Returned ''1.2.3.4'' \<and>
    client world_fail_fail_200 2 0 = None \<and> client world_fail_fail_200 2 1 = None \<and>
    client world_fail_fail_200 2 2 = None \<and> client world_fail_fail_200 2 3 = None \<and>
    sent (forward_request world_fail_fail_200 pool3 target []) =
      [SendResponse 200, SendHeader ''Content-Type'' ''text/plain'', EndHeaders, Write ''1.2.3.4''] \<and>
    iterations (forward_request world_fail_fail_200 pool3 target []) = 3) \<and>
   (0 + 1 < max_retries \<and>
    urlopen world_404_then_200 0 (chosen_proxy world_404_then_200 [] 0) target []
      = Raised (HTTPError 404 ''Not Found'') \<and>
    iterations (forward_request world_404_then_200 [] target []) = 2) \<and>
   (urlopen world_client_gone 0 (chosen_proxy world_client_gone [] 0) target []
      = Returned reply_200 \<and>
    2 < length (headers reply_200) + 2 \<and>
    client world_client_gone 0 0 = None \<and> client world_client_gone 0 1 = None \<and>
    client world_client_gone 0 2 = Some (ConnectionError ''[Errno 32] Broken pipe'') \<and>
    attempt_exn world_client_gone [] target [] 0
      = Some (ConnectionError ''[Errno 32] Broken pipe'') \<and>
    iterations (forward_request world_client_gone [] target []) = 3)"
proof -
  text \<open>The hypotheses and the results, evaluated from the definitions.\<close>
  have m: "2 < max_retries" "0 + 1 < max_retries" by (simp_all add: max_retries_def)
  have e01: "attempt_exn world_fail_fail_200 pool3 target [] 0 \<noteq> None"
    "attempt_exn world_fail_fail_200 pool3 target [] 1 \<noteq> None"
    by (simp_all add: forward_defs world_fail_fail_200_def)
  have u: "urlopen world_fail_fail_200 2 (chosen_proxy world_fail_fail_200 pool3 2) target []
      = Returned reply_200"
    by (simp add: world_fail_fail_200_def urllib_open_def reply_200_def)
  have b: "body reply_200 = Returned ''1.2.3.4''" by (simp add: reply_200_def)
  have c4: "client world_fail_fail_200 2 0 = None" "client world_fail_fail_200 2 1 = None"
    "client world_fail_fail_200 2 2 = None" "client world_fail_fail_200 2 3 = None"
    by (simp_all add: world_fail_fail_200_def)
  have r1: "sent (forward_request world_fail_fail_200 pool3 target []) =
      [SendResponse 200, SendHeader ''Content-Type'' ''text/plain'', EndHeaders, Write ''1.2.3.4'']"
    "iterations (forward_request world_fail_fail_200 pool3 target []) = 3"
    by (simp_all add: forward_defs world_fail_fail_200_def)
  have u4: "urlopen world_404_then_200 0 (chosen_proxy world_404_then_200 [] 0) target []
      = Raised (HTTPError 404 ''Not Found'')"
    by (simp add: world_404_then_200_def urllib_open_def reply_404_def)
  have r2: "iterations (forward_request world_404_then_200 [] target []) = 2"
    by (simp add: forward_defs world_404_then_200_def)
  have g: "urlopen world_client_gone 0 (chosen_proxy world_client_gone [] 0) target []
      = Returned reply_200"
    "2 < length (headers reply_200) + 2"
    "client world_client_gone 0 0 = None" "client world_client_gone 0 1 = None"
    "client world_client_gone 0 2 = Some (ConnectionError ''[Errno 32] Broken pipe'')"
    by (simp_all add: world_client_gone_def urllib_open_def reply_200_def)
  have r3: "attempt_exn world_client_gone [] target [] 0
      = Some (ConnectionError ''[Errno 32] Broken pipe'')"
    "iterations (forward_request world_client_gone [] target []) = 3"
    by (simp_all add: forward_defs world_client_gone_def)
  text \<open>The theorem at these inputs gives the same.\<close>
  have e: "\<forall>j<2. attempt_exn world_fail_fail_200 pool3 target [] j \<noteq> None"
    using e01 by (simp add: less_Suc_eq numeral_2_eq_2)
  have c: "\<forall>i < length (headers reply_200) + 3. client world_fail_fail_200 2 i = None"
    by (simp add: world_fail_fail_200_def)
  have n4: "\<forall>j<0. attempt_exn world_404_then_200 [] target [] j \<noteq> None" by simp
  have gn: "\<forall>i<2. client world_client_gone 0 i = None"
    by (simp add: world_client_gone_def)
  from forward_returned_response_ends_loop[of 2 world_fail_fail_200 pool3 target "[]"
      reply_200 "''1.2.3.4''"] m e u b c
  have t1: "iterations (forward_request world_fail_fail_200 pool3 target []) = 2 + 1"
    by blast
  from forward_returned_response_ends_loop[of 0 world_404_then_200 "[]" target "[]"
      _ _ 404 "''Not Found''"] m u4 n4
  have t2: "0 + 1 < iterations (forward_request world_404_then_200 [] target [])"
    by blast
  from forward_returned_response_ends_loop[of 0 world_client_gone "[]" target "[]"
      reply_200 _ _ _ 2 "ConnectionError ''[Errno 32] Broken pipe''"] m g gn
  have t3: "0 + 1 < iterations (forward_request world_client_gone [] target [])"
    by blast
  show ?thesis using m e01 u b c4 r1 u4 r2 g r3 t1 t2 t3 by simp
qed




lemma copy_response_logged: "copy_response cl opened h = (h1, x) \<Longrightarrow> logged h1 = logged h"
  by (auto simp: copy_response_def split: prod.splits)

lemma chosen_proxy_nonempty:
  assumes "\<forall>p\<in>set P. p \<noteq> []" "P \<noteq> []"
  shows "\<exists>p\<in>set P. get_random_proxy P (draw w k) = Some p \<and> chosen_proxy w P k = Some p"
  using assms
  by (auto simp: chosen_proxy_def get_random_proxy_def random_choice_def falsy_def Let_def)

lemma try_body_logged:
  assumes "\<forall>p\<in>set P. p \<noteq> []" "try_body w P url hdrs k pv h = (pv', h1, x)"
    "ev \<in> set (logged h1)"
  shows "ev \<in> set (logged h) \<or>
         (P = [] \<and> (ev = NoProxiesAvailable \<or> ev = ForwardedDirectly url)) \<or>
         (P \<noteq> [] \<and> (\<exists>p. ev = AttemptUsingProxy (k + 1) p url \<or> ev = ForwardedVia url p))"
proof (cases "P = []")
  case True
  then show ?thesis using assms(2,3)
    by (auto simp: try_body_def add_log_def split: prod.splits option.splits
        dest!: copy_response_logged)
next
  case False
  then have nf: "\<not> falsy (get_random_proxy P (draw w k))"
    using assms(1) by (auto simp: get_random_proxy_def random_choice_def falsy_def)
  show ?thesis using assms(2,3) False nf
    by (auto simp: try_body_def add_log_def Let_def split: prod.splits option.splits
        dest!: copy_response_logged)
qed

lemma handle_exn_logged:
  "handle_exn w e k pv url h = (h2, y) \<Longrightarrow> ev \<in> set (logged h2) \<Longrightarrow>
   ev \<in> set (logged h) \<or> ev \<notin> {NoProxyAvailable, NoProxiesAvailable, ForwardedDirectly url}"
  by (cases e; cases "client_error w k")
     (auto simp: handle_exn_def Let_def add_log_def send_error_def split: if_splits)

lemma retry_loop_logged:
  assumes "\<forall>p\<in>set P. p \<noteq> []"
  shows "ev \<in> set (logged (retry_loop w P url hdrs ks pv h)) \<Longrightarrow>
     ev \<in> set (logged h) \<or>
     (ev \<noteq> NoProxyAvailable \<and>
      (P \<noteq> [] \<longrightarrow> ev \<noteq> NoProxiesAvailable \<and> ev \<noteq> ForwardedDirectly url))"
proof (induction ks arbitrary: pv h)
  case Nil
  then show ?case by simp
next
  case (Cons k ks)
  let ?h0 = "h\<lparr>iterations := iterations h + 1\<rparr>"
  obtain pv' h1 x where tb: "try_body w P url hdrs k pv ?h0 = (pv', h1, x)"
    by (cases "try_body w P url hdrs k pv ?h0") auto
  have t: "\<And>ev. ev \<in> set (logged h1) \<Longrightarrow> ev \<in> set (logged h) \<or>
     (ev \<noteq> NoProxyAvailable \<and>
      (P \<noteq> [] \<longrightarrow> ev \<noteq> NoProxiesAvailable \<and> ev \<noteq> ForwardedDirectly url))"
    using try_body_logged[OF assms tb] by fastforce
  show ?case
  proof (cases x)
    case None
    then have "retry_loop w P url hdrs (k # ks) pv h = h1" using tb by simp
    then show ?thesis using Cons.prems t by simp
  next
    case (Some e)
    obtain h2 y where he: "handle_exn w e k pv' url h1 = (h2, y)"
      by (cases "handle_exn w e k pv' url h1") auto
    have t2: "\<And>ev. ev \<in> set (logged h2) \<Longrightarrow> ev \<in> set (logged h) \<or>
       (ev \<noteq> NoProxyAvailable \<and>
        (P \<noteq> [] \<longrightarrow> ev \<noteq> NoProxiesAvailable \<and> ev \<noteq> ForwardedDirectly url))"
      using handle_exn_logged[OF he] t by blast
    show ?thesis
    proof (cases y)
      case None
      have step: "retry_loop w P url hdrs (k # ks) pv h =
          retry_loop w P url hdrs ks pv' (h2\<lparr>slept := slept h2 + 1\<rparr>)"
        using tb Some he None by simp
      from Cons.prems[unfolded step] Cons.IH[of pv' "h2\<lparr>slept := slept h2 + 1\<rparr>"]
      consider "ev \<in> set (logged h2)"
        | "ev \<noteq> NoProxyAvailable \<and>
           (P \<noteq> [] \<longrightarrow> ev \<noteq> NoProxiesAvailable \<and> ev \<noteq> ForwardedDirectly url)"
        by auto
      then show ?thesis using t2 by cases auto
    next
      case (Some e')
      have "retry_loop w P url hdrs (k # ks) pv h = h2\<lparr>escaped := Some e'\<rparr>"
        using tb \<open>x = Some e\<close> he Some by simp
      then show ?thesis using Cons.prems t2 by simp
    qed
  qed
qed

text \<open>
  C10: on every pool the process can hold, an attempt that finds the pool non-empty draws
  one of its entries, never \<open>None\<close>, and goes through it; an attempt goes directly exactly
  when the pool is empty. The second direct branch, the one that logs "No proxy available",
  is never taken, and with a non-empty pool nothing is forwarded directly. A refresh that
  runs in between cannot empty the pool either.
\<close>

theorem second_direct_branch_unreachable:
  assumes "reachable_pool P"
  shows "(P \<noteq> [] \<longrightarrow>
            (\<exists>p\<in>set P. get_random_proxy P (draw w k) = Some p \<and> chosen_proxy w P k = Some p)) \<and>
         (chosen_proxy w P k = None \<longleftrightarrow> P = []) \<and>
         NoProxyAvailable \<notin> set (logged (forward_request w P url hdrs)) \<and>
         (P \<noteq> [] \<longrightarrow> NoProxiesAvailable \<notin> set (logged (forward_request w P url hdrs)) \<and>
                    ForwardedDirectly url \<notin> set (logged (forward_request w P url hdrs))) \<and>
         (P \<noteq> [] \<longrightarrow> update_proxy_pool rw P \<noteq> [])"
proof -
  have "py ''http://'' \<noteq> []" by (simp add: py_def)
  then have ne: "\<forall>p\<in>set P. p \<noteq> []"
    using reachable_http[OF assms] by (auto simp: startswith_iff)
  have a: "P \<noteq> [] \<longrightarrow>
      (\<exists>p\<in>set P. get_random_proxy P (draw w k) = Some p \<and> chosen_proxy w P k = Some p)"
    using chosen_proxy_nonempty[OF ne] by blast
  have b: "chosen_proxy w P k = None \<longleftrightarrow> P = []"
    using a by (auto simp: chosen_proxy_def)
  have l: "\<And>ev. ev \<in> set (logged (forward_request w P url hdrs)) \<Longrightarrow>
     ev \<noteq> NoProxyAvailable \<and>
     (P \<noteq> [] \<longrightarrow> ev \<noteq> NoProxiesAvailable \<and> ev \<noteq> ForwardedDirectly url)"
    using retry_loop_logged[OF ne, of _ w url hdrs "[0..<max_retries]" None handler0]
    by (simp add: forward_request_def handler0_def)
  show ?thesis using a b l update_nonempty by blast
qed

theorem second_direct_branch_unreachable_witness:
  "reachable_pool (update_proxy_pool world_second_passes []) \<and>
   update_proxy_pool world_second_passes [] = [py ''http://5.6.7.8:8080''] \<and>
   get_random_proxy [py ''http://5.6.7.8:8080''] (draw world_all_fail 0)
     = Some (py ''http://5.6.7.8:8080'') \<and>
   chosen_proxy world_all_fail [py ''http://5.6.7.8:8080''] 0 = Some (py ''http://5.6.7.8:8080'') \<and>
   logged (forward_request world_fail_fail_200 [py ''http://5.6.7.8:8080''] target []) =
     [AttemptUsingProxy 1 (py ''http://5.6.7.8:8080'') target,
      URLErrorWith (py ''http://5.6.7.8:8080'') ''<urlopen error [Errno 111] Connection refused>''
        target,
      AttemptUsingProxy 2 (py ''http://5.6.7.8:8080'') target,
      TimeoutErrorWith (py ''http://5.6.7.8:8080'') target,
      AttemptUsingProxy 3 (py ''http://5.6.7.8:8080'') target,
      ForwardedVia target (py ''http://5.6.7.8:8080'')] \<and>
   NoProxyAvailable
     \<notin> set (logged (forward_request world_fail_fail_200 [py ''http://5.6.7.8:8080''] target [])) \<and>
   NoProxiesAvailable
     \<notin> set (logged (forward_request world_fail_fail_200 [py ''http://5.6.7.8:8080''] target []))"
proof -
  have r: "reachable_pool (update_proxy_pool world_second_passes [])"
    by (intro reachable_pool.refresh reachable_pool.start)
  text \<open>The pool and the log, evaluated from the definitions.\<close>
  have p: "update_proxy_pool world_second_passes [] = [py ''http://5.6.7.8:8080'']"
    by (simp add: fetch_defs refresh_defs)
  have g: "get_random_proxy [py ''http://5.6.7.8:8080''] (draw world_all_fail 0)
     = Some (py ''http://5.6.7.8:8080'')"
    "chosen_proxy world_all_fail [py ''http://5.6.7.8:8080''] 0 = Some (py ''http://5.6.7.8:8080'')"
    by (simp_all add: forward_defs world_all_fail_def)
  have l: "logged (forward_request world_fail_fail_200 [py ''http://5.6.7.8:8080''] target []) =
     [AttemptUsingProxy 1 (py ''http://5.6.7.8:8080'') target,
      URLErrorWith (py ''http://5.6.7.8:8080'') ''<urlopen error [Errno 111] Connection refused>''
        target,
      AttemptUsingProxy 2 (py ''http://5.6.7.8:8080'') target,
      TimeoutErrorWith (py ''http://5.6.7.8:8080'') target,
      AttemptUsingProxy 3 (py ''http://5.6.7.8:8080'') target,
      ForwardedVia target (py ''http://5.6.7.8:8080'')]"
    by (simp add: forward_defs world_fail_fail_200_def exn_str_def)
  text \<open>The theorem at this pool.\<close>
  from second_direct_branch_unreachable[OF r, of world_fail_fail_200 0 target "[]"] p
  have t: "NoProxyAvailable
     \<notin> set (logged (forward_request world_fail_fail_200 [py ''http://5.6.7.8:8080''] target []))"
    "NoProxiesAvailable
     \<notin> set (logged (forward_request world_fail_fail_200 [py ''http://5.6.7.8:8080''] target []))"
    by auto
  show ?thesis using r p g l t by simp
qed

section \<open>Normalizing the target URL\<close>

lemma list_ex_sites:
  "list_ex (\<lambda>site. py_in site s) https_sites \<longleftrightarrow>
   (\<exists>site\<in>set https_sites. \<exists>a b. s = a @ site @ b)"
  by (simp add: list_ex_iff py_in_iff)

text \<open>
  C5, as the claim states it, fails: \<open>example.com/github\<close> has no scheme and its host,
  \<open>example.com\<close>, matches none of the listed names, yet \<open>normalize_url\<close> prepends \<open>https://\<close>,
  because it looks for the names in the whole path.
\<close>

theorem normalize_url_not_host_based:
  "normalize_url ''/example.com/github'' = ''https://example.com/github'' \<and>
   spec_host ''example.com/github'' = ''example.com'' \<and>
   spec_normalize_url ''example.com/github'' = ''http://example.com/github''"
  by (simp add: normalize_url_def spec_normalize_url_def spec_host_def https_sites_def
      lower_def py_lower_char_def)

text \<open>
  C5, amended: for a target URL that begins with neither \<open>http://\<close> nor \<open>https://\<close>,
  \<open>normalize_url\<close>, after dropping the one leading slash of the request path, prepends
  \<open>https://\<close> when the lower-cased URL holds one of google, github, facebook, twitter
  anywhere, and \<open>http://\<close> otherwise; so \<open>example.com\<close> becomes \<open>http://example.com\<close> and
  \<open>github.com/foo\<close> becomes \<open>https://github.com/foo\<close>. \<open>validate_url\<close> of app.py prepends
  \<open>http://\<close> whenever \<open>urlparse\<close> finds no scheme.
\<close>

theorem normalize_url_substring_heuristic:
  "(\<not> startswith u ''http://'' \<and> \<not> startswith u ''https://'' \<longrightarrow>
      normalize_url (CHR ''/'' # u) =
        (if \<exists>site\<in>set https_sites. \<exists>a b. lower u = a @ site @ b
         then ''https://'' @ u else ''http://'' @ u)) \<and>
   (\<not> startswith u ''/'' \<and> \<not> startswith u ''http://'' \<and> \<not> startswith u ''https://'' \<longrightarrow>
      normalize_url u =
        (if \<exists>site\<in>set https_sites. \<exists>a b. lower u = a @ site @ b
         then ''https://'' @ u else ''http://'' @ u)) \<and>
   normalize_url ''example.com'' = ''http://example.com'' \<and>
   normalize_url ''github.com/foo'' = ''https://github.com/foo'' \<and>
   validate_url u (Returned []) = Some (''http://'' @ u)"
proof (intro conjI impI)
  assume "\<not> startswith u ''http://'' \<and> \<not> startswith u ''https://''"
  then show "normalize_url (CHR ''/'' # u) =
        (if \<exists>site\<in>set https_sites. \<exists>a b. lower u = a @ site @ b
         then ''https://'' @ u else ''http://'' @ u)"
    unfolding normalize_url_def list_ex_sites
    by (simp del: startswith.simps
        add: startswith.simps(3)[of "CHR ''/''" u "CHR ''/''" "[]"] startswith.simps(1))
next
  assume "\<not> startswith u ''/'' \<and> \<not> startswith u ''http://'' \<and> \<not> startswith u ''https://''"
  then show "normalize_url u =
        (if \<exists>site\<in>set https_sites. \<exists>a b. lower u = a @ site @ b
         then ''https://'' @ u else ''http://'' @ u)"
    unfolding normalize_url_def list_ex_sites by (simp del: startswith.simps)
next
  show "normalize_url ''example.com'' = ''http://example.com''"
    by (simp add: normalize_url_def https_sites_def lower_def py_lower_char_def)
  show "normalize_url ''github.com/foo'' = ''https://github.com/foo''"
    by (simp add: normalize_url_def https_sites_def lower_def py_lower_char_def)
  show "validate_url u (Returned []) = Some (''http://'' @ u)"
    by (simp add: validate_url_def)
qed

theorem normalize_url_substring_heuristic_witness:
  "\<not> startswith ''Example.com/GitHub'' ''http://'' \<and>
   \<not> startswith ''Example.com/GitHub'' ''https://'' \<and>
   \<not> startswith ''Example.com/GitHub'' ''/'' \<and>
   lower ''Example.com/GitHub'' = ''example.com/'' @ ''github'' @ [] \<and>
   normalize_url ''/Example.com/GitHub'' = ''https://Example.com/GitHub'' \<and>
   normalize_url ''Example.com/GitHub'' = ''https://Example.com/GitHub''"
proof -
  have s: "\<not> startswith ''Example.com/GitHub'' ''http://'' \<and>
           \<not> startswith ''Example.com/GitHub'' ''https://''" by simp
  have l: "lower ''Example.com/GitHub'' = ''example.com/'' @ ''github'' @ []"
    by code_simp
  have g: "''github'' \<in> set https_sites" by (simp add: https_sites_def)
  have c: "\<exists>site\<in>set https_sites. \<exists>a b. lower ''Example.com/GitHub'' = a @ site @ b"
    using g l by blast
  have n: "\<not> startswith ''Example.com/GitHub'' ''/''" by simp
  from normalize_url_substring_heuristic[of "''Example.com/GitHub''"] s c n
  have "normalize_url (CHR ''/'' # ''Example.com/GitHub'') = ''https://'' @ ''Example.com/GitHub''"
    and "normalize_url ''Example.com/GitHub'' = ''https://'' @ ''Example.com/GitHub''"
    by presburger+
  then show ?thesis using s l n by simp
qed

end
